theory Spec2Isabelle
  imports Complex_Main "HOL-Library.Monad_Syntax"
begin

section \<open>Numbers\<close>

text \<open>
  Times, durations and speeds are JavaScript numbers. They are modelled as exact reals:
  the model covers the finite values and ignores rounding. \<open>NaN\<close> and the infinities
  are outside the reals: in HOL \<open>x / 0 = 0\<close>, in JavaScript the quotient by zero is not
  finite. A quotient whose divisor the caller chooses is \<open>js_div\<close>, which is \<open>None\<close>
  when the quotient is not a finite number; where the code guards the divisor, a
  statement about the plain quotient carries the hypothesis that it is not zero.
\<close>

type_synonym number = real

definition js_div :: "number \<Rightarrow> number \<Rightarrow> number option" where
  "js_div a b = (if b = 0 then None else Some (a / b))"

text \<open>\<^verbatim>\<open>Math.trunc\<close>, \<^verbatim>\<open>Math.ceil\<close> and \<^verbatim>\<open>Math.round\<close> (which rounds a tie upwards).\<close>

definition trunc :: "number \<Rightarrow> number" where
  "trunc x = (if 0 \<le> x then of_int \<lfloor>x\<rfloor> else of_int \<lceil>x\<rceil>)"

definition ceil :: "number \<Rightarrow> number" where
  "ceil x = of_int \<lceil>x\<rceil>"

definition Math_round :: "number \<Rightarrow> number" where
  "Math_round x = of_int \<lfloor>x + 1 / 2\<rfloor>"

text \<open>anim.ts: the duration of a single frame, and the bound of the asynchronous drain.\<close>

definition FRAME_MS :: number where
  "FRAME_MS = 16"

definition MAX_ASYNC :: nat where
  "MAX_ASYNC = 100"

text \<open>
  anim.ts, \<^verbatim>\<open>adjustDuration\<close>:
  \<^verbatim>\<open>return Math.round(durationMs / speed / FRAME_MS) * FRAME_MS;\<close>
  With a speed of zero the quotient is an infinity or \<open>NaN\<close>, and so is the result
  (\<^verbatim>\<open>Math.round\<close>, the division by \<open>FRAME_MS\<close> and the product map an infinity to an
  infinity and \<open>NaN\<close> to \<open>NaN\<close>): the result is \<open>None\<close>.
\<close>

definition adjustDuration :: "number \<Rightarrow> number \<Rightarrow> number option" where
  "adjustDuration durationMs speed =
     (case js_div durationMs speed of
        None \<Rightarrow> None
      | Some q \<Rightarrow> Some (Math_round (q / FRAME_MS) * FRAME_MS))"

text \<open>utils.ts, \<^verbatim>\<open>parseValue(name, params, defaults)\<close>: the value of \<open>params[name]\<close>
  unless it is undefined, else \<open>defaults[name]\<close>. The model passes the two looked-up
  values.\<close>

definition parseValue :: "'a option \<Rightarrow> 'a \<Rightarrow> 'a" where
  "parseValue v d = (case v of None \<Rightarrow> d | Some x \<Rightarrow> x)"

section \<open>Entities (entities.ts)\<close>

text \<open>
  A callback is named by a number (the promise it resolves). The parent of an entity is
  the timeline it is attached to; the model has one timeline, so the back-reference is
  either absent or that timeline.
\<close>

type_synonym callback = nat

datatype AnimContainer = ParentTimeLine

text \<open>
  The abstract class \<^verbatim>\<open>TimelineEntity\<close>. The source's field \<^verbatim>\<open>done\<close> is written
  \<open>isDone\<close>; \<^verbatim>\<open>nextEntity\<close> is the position in the parent's running list.
  In the later revision of the file \<^verbatim>\<open>delayTime\<close> is named \<^verbatim>\<open>delayedStartTime\<close> and
  \<^verbatim>\<open>releaseTime\<close> is named \<^verbatim>\<open>delayedEndTime\<close>; the code is the same.
\<close>

record TimelineEntity =
  name :: string
  isRunning :: bool
  startRegistered :: bool
  endRegistered :: bool
  released :: bool
  isDone :: bool
  parent :: "AnimContainer option"
  delay :: number
  release :: number
  duration :: number
  startTime :: number
  delayTime :: number
  releaseTime :: number
  doneTime :: number
  endTime :: number
  releaseCb :: "callback option"


text \<open>\<^verbatim>\<open>TimelineEntity.init(startTime)\<close>, statement by statement.\<close>

definition init :: "'a TimelineEntity_scheme \<Rightarrow> number \<Rightarrow> 'a TimelineEntity_scheme" where
  "init this startTime' =
     (let e1 = this\<lparr>startTime := startTime'\<rparr>;
          e2 = (if delay e1 < 0 then e1\<lparr>delay := 0\<rparr> else e1);
          e3 = e2\<lparr>delayTime := startTime' + delay e2\<rparr>
      in if duration e3 \<ge> 0 then
           (let doneTime' = delayTime e3 + duration e3;
                e4 = e3\<lparr>doneTime := doneTime'\<rparr>;
                e5 = e4\<lparr>releaseTime := doneTime' + release e4\<rparr>;
                e6 = (if releaseTime e5 < delayTime e5
                      then e5\<lparr>release := - duration e5, releaseTime := delayTime e5\<rparr>
                      else e5);
                e7 = e6\<lparr>endTime := doneTime'\<rparr>
            in if releaseTime e7 > endTime e7 then e7\<lparr>endTime := releaseTime e7\<rparr> else e7)
         else e3)"

text \<open>\<^verbatim>\<open>TimelineEntity.getNextMarkerPosition(time, forward)\<close>; \<open>if (this.releaseCb)\<close>
  is the test that the callback is set and not yet consumed.\<close>

definition getNextMarkerPosition :: "'a TimelineEntity_scheme \<Rightarrow> number \<Rightarrow> bool \<Rightarrow> number" where
  "getNextMarkerPosition this time forward =
     (if forward then
        (if time < delayTime this then delayTime this
         else if releaseCb this \<noteq> None then
           (if release this \<le> 0 then
              (if time < releaseTime this then releaseTime this
               else if time < doneTime this then doneTime this
               else -1)
            else
              (if time < doneTime this then doneTime this
               else if time < releaseTime this then releaseTime this
               else -1))
         else
           (if time < doneTime this then doneTime this else -1))
      else
        (if time > doneTime this then doneTime this
         else if time > delayTime this then delayTime this
         else -1))"

text \<open>
  The reading of the specification that \<open>getNextMarkerPosition\<close> is compared with: the
  candidate times in the stated order, and the first of them strictly past \<open>time\<close> in
  the direction of travel, \<open>-1\<close> when there is none.
\<close>

definition spec_candidates :: "'a TimelineEntity_scheme \<Rightarrow> bool \<Rightarrow> number list" where
  "spec_candidates this forward =
     (if forward then
        (if releaseCb this = None then [delayTime this, doneTime this]
         else if release this \<le> 0 then [delayTime this, releaseTime this, doneTime this]
         else [delayTime this, doneTime this, releaseTime this])
      else [doneTime this, delayTime this])"

fun spec_first_past :: "number \<Rightarrow> bool \<Rightarrow> number list \<Rightarrow> number" where
  "spec_first_past time forward [] = -1"
| "spec_first_past time forward (c # cs) =
     (if (if forward then time < c else c < time) then c
      else spec_first_past time forward cs)"

section \<open>The nested player (entities.ts, PlayerEntity)\<close>

text \<open>
  JavaScript's \<open>x || d\<close> on an optional number: \<open>d\<close> when \<open>x\<close> is undefined or \<open>0\<close>
  (both falsy), else \<open>x\<close>. The remainder \<open>a % b\<close> has the sign of \<open>a\<close>; it is \<open>NaN\<close>
  when \<open>b\<close> is \<open>0\<close>, which the model writes \<open>None\<close>.
\<close>

definition js_or :: "number option \<Rightarrow> number \<Rightarrow> number" where
  "js_or v d = (case v of None \<Rightarrow> d | Some x \<Rightarrow> if x = 0 then d else x)"

definition js_rem :: "number \<Rightarrow> number \<Rightarrow> number option" where
  "js_rem a b = (if b = 0 then None else Some (a - b * trunc (a / b)))"

record PlayParams =
  pp_alternate :: "bool option"
  pp_times :: "number option"
  pp_speed :: "number option"
  pp_backSpeed :: "number option"
  pp_delay :: "number option"
  pp_release :: "number option"

text \<open>
  The class \<^verbatim>\<open>PlayerEntity\<close>. Its field \<^verbatim>\<open>timeLine\<close> is the wrapped timeline, which
  the model keeps outside the record: the wrapped timeline calls \<open>doneCb\<close>, and
  \<open>displayFrame\<close> calls the wrapped timeline's \<open>move\<close>.
\<close>

record PlayerEntity = TimelineEntity +
  alternate :: bool
  times :: number
  speed :: number
  backSpeed :: number
  d1 :: number
  d2 :: number

text \<open>
  The constructor \<^verbatim>\<open>PlayerEntity(timeline, defaults, params?)\<close>; \<open>defaultDelay\<close> and
  \<open>defaultRelease\<close> are \<open>defaults.delay\<close> and \<open>defaults.release\<close>.
\<close>

definition PlayerEntity_new :: "number \<Rightarrow> number \<Rightarrow> PlayParams option \<Rightarrow> PlayerEntity" where
  "PlayerEntity_new defaultDelay defaultRelease params =
     (let this = \<lparr>name = ''play'', isRunning = False, startRegistered = False,
                  endRegistered = False, released = False, isDone = False, parent = None,
                  delay = 0, release = 0, duration = -1, startTime = -1, delayTime = -1,
                  releaseTime = -1, doneTime = -1, endTime = -1, releaseCb = None,
                  alternate = False, times = 1, speed = 1, backSpeed = 1, d1 = -1, d2 = -1\<rparr>
      in case params of
           None \<Rightarrow> this
         | Some p \<Rightarrow>
             this\<lparr>times := js_or (pp_times p) 1,
                  alternate := (case pp_alternate p of None \<Rightarrow> False | Some b \<Rightarrow> b),
                  speed := js_or (pp_speed p) 1,
                  backSpeed := js_or (pp_backSpeed p) 1,
                  delay := parseValue (pp_delay p) defaultDelay,
                  release := parseValue (pp_release p) defaultRelease\<rparr>)"

text \<open>The callback the constructor installs as \<^verbatim>\<open>timeline.doneCb\<close>.\<close>

definition doneCb :: "PlayerEntity \<Rightarrow> number \<Rightarrow> PlayerEntity" where
  "doneCb this tlDuration =
     (let e1 = this\<lparr>d1 := trunc (tlDuration / speed this)\<rparr>;
          e2 = e1\<lparr>d2 := (if alternate e1 then trunc (tlDuration / backSpeed e1) else 0)\<rparr>;
          e3 = e2\<lparr>duration := (d1 e2 + d2 e2) * times e2\<rparr>
      in init e3 (startTime e3))"

text \<open>
  \<^verbatim>\<open>PlayerEntity.displayFrame(time, targetTime, forward)\<close>: the call it makes on the
  wrapped timeline, \<open>tl.move(x, false)\<close>, if any. \<open>MoveNaN\<close> is \<open>tl.move(NaN, false)\<close>,
  reached when the cycle length is \<open>0\<close>.
\<close>

datatype tl_call = NoMove | Move number | MoveNaN

definition PlayerEntity_displayFrame :: "PlayerEntity \<Rightarrow> number \<Rightarrow> tl_call" where
  "PlayerEntity_displayFrame this time =
     (if delayTime this \<le> time then
        (if duration this = -1 then Move ((time - delayTime this) * speed this)
         else if time \<ge> delayTime this \<and> time \<le> doneTime this then
           (let cycleLength = trunc (d1 this + d2 this)
            in case js_rem (time - delayTime this) cycleLength of
                 None \<Rightarrow> MoveNaN
               | Some t0 \<Rightarrow>
                   (let t = (if t0 = 0 \<and> time \<noteq> delayTime this then cycleLength else t0)
                    in if t \<le> d1 this then Move (t * speed this)
                       else Move ((cycleLength - t) * backSpeed this)))
         else NoMove)
      else NoMove)"

text \<open>
  The player of the end-to-end scenario of the specification: built with times 2,
  alternate, speed 1 and backSpeed 2, attached at \<open>st\<close>, once the wrapped timeline has
  reported 32 ms.
\<close>

definition scenario_params :: PlayParams where
  "scenario_params =
     \<lparr>pp_alternate = Some True, pp_times = Some 2, pp_speed = Some 1,
      pp_backSpeed = Some 2, pp_delay = None, pp_release = None\<rparr>"

definition scenario_player :: "number \<Rightarrow> PlayerEntity" where
  "scenario_player st = doneCb (init (PlayerEntity_new 0 0 (Some scenario_params)) st) 32"

text \<open>Parameters that give only \<open>times\<close>.\<close>

definition times_only :: "number \<Rightarrow> PlayParams" where
  "times_only n =
     \<lparr>pp_alternate = None, pp_times = Some n, pp_speed = None,
      pp_backSpeed = None, pp_delay = None, pp_release = None\<rparr>"

section \<open>Targets and animation types (types.ts, utils.ts)\<close>

text \<open>
  What the code reads of a DOM element: \<open>nodeType\<close> (\<open>0\<close> when falsy),
  whether \<open>ownerSVGElement\<close> is defined, its attributes, the names of its JavaScript
  properties whose value is truthy, and whether \<open>element["style"]\<close> is truthy.
  A target function is named by a number.
\<close>

record element =
  nodeType :: nat
  ownerSVGElement :: bool
  attributes :: "(string \<times> string) list"
  truthyProps :: "string list"
  hasStyle :: bool

datatype ResolvedTarget = TargetElement element | TargetFunction nat

datatype TweenType = transform | attribute | css | function_type | invalid

definition isTargetFunction :: "ResolvedTarget \<Rightarrow> bool" where
  "isTargetFunction v = (case v of TargetFunction f \<Rightarrow> True | TargetElement el \<Rightarrow> False)"

text \<open>
  \<^verbatim>\<open>el.nodeType\<close> is truthy, \<^verbatim>\<open>isSVG(el)\<close>, \<^verbatim>\<open>el.getAttribute(name)\<close> and
  \<^verbatim>\<open>el[name]\<close> is truthy. A function value has neither a \<open>nodeType\<close> nor an
  \<open>ownerSVGElement\<close> property: both reads give undefined.
\<close>

definition hasNodeType :: "ResolvedTarget \<Rightarrow> bool" where
  "hasNodeType el = (case el of TargetElement e \<Rightarrow> nodeType e \<noteq> 0 | TargetFunction f \<Rightarrow> False)"

definition isSVG :: "ResolvedTarget \<Rightarrow> bool" where
  "isSVG el = (case el of TargetElement e \<Rightarrow> ownerSVGElement e | TargetFunction f \<Rightarrow> False)"

definition getAttribute :: "element \<Rightarrow> string \<Rightarrow> string option" where
  "getAttribute e propName = map_of (attributes e) propName"

definition hasAttribute :: "element \<Rightarrow> string \<Rightarrow> bool" where
  "hasAttribute e propName = (getAttribute e propName \<noteq> None)"

definition propTruthy :: "element \<Rightarrow> string \<Rightarrow> bool" where
  "propTruthy e propName = (propName \<in> set (truthyProps e))"

text \<open>utils.ts line 27: the set \<^verbatim>\<open>TRANSFORMS\<close>.\<close>

definition TRANSFORMS :: "string list" where
  "TRANSFORMS = [''translateX'', ''translateY'', ''translateZ'', ''rotate'', ''rotateX'',
     ''rotateY'', ''rotateZ'', ''scale'', ''scaleX'', ''scaleY'', ''scaleZ'', ''skewX'',
     ''skewY'', ''perspective'']"

text \<open>
  utils.ts lines 47-54, \<^verbatim>\<open>getAnimationType(el, propName)\<close>. For a function the first
  test fails, so the attribute read is never reached.
\<close>

definition getAnimationType :: "ResolvedTarget \<Rightarrow> string \<Rightarrow> TweenType" where
  "getAnimationType el propName =
     (if hasNodeType el \<or> isSVG el then
        (case el of
           TargetFunction f \<Rightarrow> invalid
         | TargetElement e \<Rightarrow>
             if propName \<in> set TRANSFORMS then transform
             else if (case getAttribute e propName of None \<Rightarrow> False | Some v \<Rightarrow> v \<noteq> [])
                     \<or> (isSVG el \<and> propTruthy e propName) then attribute
             else if propName \<noteq> ''transform'' then css
             else invalid)
      else invalid)"

text \<open>
  The repository holds a second revision of utils.ts (its file name is not recorded),
  which imports \<^verbatim>\<open>isTargetFunction\<close> from types.ts and the object \<^verbatim>\<open>TRANSFORMS\<close> from
  transforms.ts (which has the key \<^verbatim>\<open>transform\<close> as well). Its \<open>getAnimationType\<close>:
\<close>

definition TRANSFORMS_rev2 :: "string list" where
  "TRANSFORMS_rev2 = ''transform'' # TRANSFORMS"

definition getAnimationType_rev2 :: "ResolvedTarget \<Rightarrow> string \<Rightarrow> TweenType" where
  "getAnimationType_rev2 target propName =
     (case target of
        TargetFunction f \<Rightarrow> function_type
      | TargetElement e \<Rightarrow>
          if hasNodeType target \<or> isSVG target then
            (if hasAttribute e propName \<or> (isSVG target \<and> propTruthy e propName) then attribute
             else if propName \<in> set TRANSFORMS_rev2 then transform
             else css)
          else invalid)"

section \<open>The timeline and the player (anim.ts)\<close>

text \<open>
  Objects that the code shares by reference are kept in stores, and a reference is an
  index into a store: the markers of a timeline in \<open>markerStore\<close>, its entities in
  \<open>entities\<close>. The engine creates a reference only by appending to a store, so the
  references it holds are inside it. The source's fields \<^verbatim>\<open>time\<close>, \<^verbatim>\<open>prev\<close> and
  \<^verbatim>\<open>next\<close> of a marker are written \<open>mtime\<close>, \<open>mprev\<close> and \<open>mnext\<close>.
\<close>

type_synonym entity_ref = nat

type_synonym marker_ref = nat

record AnimMarker =
  mprev :: "marker_ref option"
  mnext :: "marker_ref option"
  mtime :: number
  startEntities :: "entity_ref list option"
  endEntities :: "entity_ref list option"

text \<open>
  The entities a timeline of the model holds are the tweens that \<open>animate\<close> creates and
  the delays that \<open>delay\<close> creates (the revision of entities.ts whose \<open>createTweens\<close>
  takes the nine arguments that anim.ts passes: one \<^verbatim>\<open>Tween\<close> for each property).
  A tween records its target, its property name and the animation type its constructor
  resolved.
\<close>

datatype EntityKind = DelayKind | TweenKind ResolvedTarget string TweenType

record Entity = TimelineEntity +
  kind :: EntityKind

text \<open>
  The settings of a timeline (\<^verbatim>\<open>ControlParams\<close> resolved along the prototype chain down
  to \<^verbatim>\<open>defaultSettings\<close>, so every field but the target is defined). An easing
  function is named by a number. A target is a target function, a selector string or an
  element.
\<close>

datatype Target = TargetFn nat | SelectorString string | SelectorElement element

record ControlParams =
  s_target :: "Target option"
  s_easing :: nat
  s_duration :: number
  s_delay :: number
  s_release :: number
  s_elasticity :: number
  s_speed :: number

definition easeOutElastic :: nat where
  "easeOutElastic = 0"

definition defaultSettings :: ControlParams where
  "defaultSettings =
     \<lparr>s_target = None, s_easing = easeOutElastic, s_duration = 1000, s_delay = 0,
      s_release = 0, s_elasticity = 1 / 2, s_speed = 1\<rparr>"

text \<open>
  The parameters of \<open>animate\<close>: the control keys, each optional, and the other keys of
  the object in order (those \<open>createTweens\<close> keeps: not a key of the settings, not
  \<^verbatim>\<open>target\<close>). A property value is a scalar or an array; \<open>interpolates\<close> says whether
  \<^verbatim>\<open>createInterpolator\<close> finds an interpolator for it (the interpolators and the DOM
  reads that feed them are outside the model).
\<close>

datatype PropValue = Scalar string | Array "string list"

record PropertySpec =
  ps_name :: string
  ps_value :: PropValue
  interpolates :: bool

record AnimateParams =
  p_target :: "Target option"
  p_easing :: "nat option"
  p_duration :: "number option"
  p_delay :: "number option"
  p_release :: "number option"
  p_elasticity :: "number option"
  p_speed :: "number option"
  properties :: "PropertySpec list"

text \<open>A selector context is its \<^verbatim>\<open>querySelector\<close>.\<close>

type_synonym SelectorContext = "string \<Rightarrow> element option"

text \<open>
  The class \<^verbatim>\<open>TimeLine\<close>. The fields it shares by name with an entity carry the
  prefix \<open>tl\<close>. The timeline of the model is a root (or the timeline a PlayerEntity
  wraps): \<open>this.parent\<close> is undefined. The running list (\<^verbatim>\<open>rList\<close>, \<^verbatim>\<open>rListEnd\<close> and
  the \<^verbatim>\<open>nextEntity\<close> links) is the list \<open>rList\<close>, head first.
\<close>

record TimeLine =
  tlName :: string
  selectorCtxt :: "SelectorContext option"
  tlStartTime :: number
  currentTime :: number
  tlEndTime :: number
  moveTarget :: number
  markerStore :: "AnimMarker list"
  firstMarker :: "marker_ref option"
  currentMarker :: "marker_ref option"
  lastMarker :: "marker_ref option"
  settings :: ControlParams
  entities :: "Entity list"
  rList :: "entity_ref list"
  lastTargetTime :: number
  lastTargetForward :: bool
  tlFunctionCalled :: bool
  tlFunctionComplete :: bool
  tlReleased :: bool
  tlDone :: bool
  tlReleaseCb :: "callback option"
  tlDoneCb :: "callback option"

text \<open>
  The state the engine runs in: the timeline, the module variables \<^verbatim>\<open>ASYNC_COUNTER\<close>
  and \<^verbatim>\<open>AE_COUNT\<close>, and what leaves the engine: the lines written to the console, the
  callbacks called (a release callback, or \<open>doneCb\<close> with its argument), the values
  committed (\<open>setProgression\<close> of a tween with the elapsed time), and the number of
  promises made so far.
\<close>

datatype effect = Resolved callback | DoneCalled callback number | Applied entity_ref number

record world = TimeLine +
  ASYNC_COUNTER :: int
  AE_COUNT :: nat
  console :: "string list"
  effects :: "effect list"
  promises :: nat
  pending :: nat

text \<open>The field initialisers and the constructor \<^verbatim>\<open>TimeLine(name, tlFunction)\<close>.\<close>

definition TimeLine_new :: "string \<Rightarrow> TimeLine" where
  "TimeLine_new nm =
     \<lparr>tlName = nm, selectorCtxt = None, tlStartTime = 0, currentTime = -1, tlEndTime = -1,
      moveTarget = 0, markerStore = [], firstMarker = None, currentMarker = None,
      lastMarker = None, settings = defaultSettings, entities = [], rList = [],
      lastTargetTime = -1, lastTargetForward = True, tlFunctionCalled = False,
      tlFunctionComplete = False, tlReleased = False, tlDone = False, tlReleaseCb = None,
      tlDoneCb = None\<rparr>"

definition world_new :: "string \<Rightarrow> world" where
  "world_new nm =
     TimeLine.extend (TimeLine_new nm)
       (world.fields 0 0 [] [] 0 0)"

text \<open>The class \<^verbatim>\<open>Player\<close> (its field \<^verbatim>\<open>length\<close> is written \<open>plLength\<close>).\<close>

record Player =
  maxDuration :: number
  timeLine :: TimeLine
  currentTick :: int
  plLength :: "number option"
  playId :: nat

definition Player_new :: "SelectorContext option \<Rightarrow> Player" where
  "Player_new document =
     \<lparr>maxDuration = 600000,
      timeLine = (TimeLine_new ''root'')\<lparr>selectorCtxt := document\<rparr>,
      currentTick = -1, plLength = None, playId = 0\<rparr>"

text \<open>The getter \<^verbatim>\<open>Player.position\<close>.\<close>

definition position :: "Player \<Rightarrow> number" where
  "position this =
     (let currentTime' = currentTime (timeLine this)
      in if currentTime' < 0 then 0 else currentTime')"

subsection \<open>Markers\<close>

text \<open>
  A result \<open>None\<close> of an operation of the engine means that the call does not return: a
  walk along the marker links that never ends, or a read through an undefined reference
  (a TypeError).
\<close>

text \<open>The function \<^verbatim>\<open>createMarker(time, prev, next)\<close> at the end of anim.ts.\<close>

definition newMarker :: "number \<Rightarrow> marker_ref option \<Rightarrow> marker_ref option \<Rightarrow> AnimMarker" where
  "newMarker time prev nxt =
     \<lparr>mprev = prev, mnext = nxt, mtime = time, startEntities = None, endEntities = None\<rparr>"

text \<open>\<^verbatim>\<open>TimeLine.getMarker(time)\<close>: the loop, from the marker \<open>cm\<close>.\<close>

partial_function (option) getMarker_loop ::
  "marker_ref option \<Rightarrow> AnimMarker list \<Rightarrow> number \<Rightarrow> bool \<Rightarrow> marker_ref option option" where
  "getMarker_loop cm ms time forward =
     (case cm of
        None \<Rightarrow> Some None
      | Some i \<Rightarrow>
          if mtime (ms ! i) = time then Some (Some i)
          else if forward \<and> mtime (ms ! i) \<le> time then
            getMarker_loop (mnext (ms ! i)) ms time forward
          else if \<not> forward \<and> mtime (ms ! i) \<ge> time then
            getMarker_loop (mprev (ms ! i)) ms time forward
          else Some None)"

declare getMarker_loop.simps [code]

definition getMarker :: "'a TimeLine_scheme \<Rightarrow> number \<Rightarrow> marker_ref option option" where
  "getMarker this time =
     (case currentMarker this of
        None \<Rightarrow> Some None
      | Some i \<Rightarrow>
          getMarker_loop (Some i) (markerStore this) time (time \<ge> mtime (markerStore this ! i)))"

text \<open>
  \<^verbatim>\<open>TimeLine.createMarker(time, start?)\<close> when there is a first marker, from the marker
  \<open>cur\<close> (\<open>start || this.currentMarker\<close>). A new marker is linked to its two
  neighbours, and only the neighbour the search came from is linked to it, as in the
  source.
\<close>

partial_function (option) createMarker_from ::
  "number \<Rightarrow> marker_ref \<Rightarrow> world \<Rightarrow> (marker_ref \<times> world) option" where
  "createMarker_from time cur this =
     (let currentMarker' = markerStore this ! cur
      in if mtime currentMarker' = time then Some (cur, this)
         else if time > mtime currentMarker' then
           (if (case mnext currentMarker' of
                  None \<Rightarrow> False
                | Some nx \<Rightarrow> mtime (markerStore this ! nx) \<le> time)
            then createMarker_from time (the (mnext currentMarker')) this
            else
              (let marker = length (markerStore this);
                   w1 = this\<lparr>markerStore :=
                          (markerStore this)[cur := currentMarker'\<lparr>mnext := Some marker\<rparr>]
                            @ [newMarker time (Some cur) (mnext currentMarker')]\<rparr>;
                   w2 = (if lastMarker w1 = Some cur then w1\<lparr>lastMarker := Some marker\<rparr> else w1)
               in Some (marker, w2\<lparr>currentMarker := Some marker\<rparr>)))
         else
           (if (case mprev currentMarker' of
                  None \<Rightarrow> False
                | Some pv \<Rightarrow> mtime (markerStore this ! pv) \<ge> time)
            then createMarker_from time (the (mprev currentMarker')) this
            else
              (let marker = length (markerStore this);
                   w1 = this\<lparr>markerStore :=
                          (markerStore this)[cur := currentMarker'\<lparr>mprev := Some marker\<rparr>]
                            @ [newMarker time (mprev currentMarker') (Some cur)]\<rparr>;
                   w2 = (if firstMarker w1 = Some cur then w1\<lparr>firstMarker := Some marker\<rparr> else w1)
               in Some (marker, w2\<lparr>currentMarker := Some marker\<rparr>))))"

declare createMarker_from.simps [code]

definition createMarker :: "world \<Rightarrow> number \<Rightarrow> (marker_ref \<times> world) option" where
  "createMarker this time =
     (if firstMarker this = None then
        (let marker = length (markerStore this)
         in Some (marker,
                  this\<lparr>markerStore := markerStore this @ [newMarker time None None],
                       firstMarker := Some marker, lastMarker := Some marker,
                       currentMarker := Some marker\<rparr>))
      else
        (case currentMarker this of
           None \<Rightarrow> None
         | Some cur \<Rightarrow> createMarker_from time cur this))"

subsection \<open>Entities of a timeline\<close>

definition updEntity :: "entity_ref \<Rightarrow> (Entity \<Rightarrow> Entity) \<Rightarrow> world \<Rightarrow> world" where
  "updEntity ae f this = this\<lparr>entities := (entities this)[ae := f (entities this ! ae)]\<rparr>"

definition updMarker :: "marker_ref \<Rightarrow> (AnimMarker \<Rightarrow> AnimMarker) \<Rightarrow> world \<Rightarrow> world" where
  "updMarker m f this = this\<lparr>markerStore := (markerStore this)[m := f (markerStore this ! m)]\<rparr>"

text \<open>\<open>if (!list) list = [ae]; else list.push(ae)\<close>.\<close>

definition pushEntity :: "entity_ref \<Rightarrow> entity_ref list option \<Rightarrow> entity_ref list option" where
  "pushEntity ae l = (case l of None \<Rightarrow> Some [ae] | Some xs \<Rightarrow> Some (xs @ [ae]))"

text \<open>A loop over a list of entities, each step of which may not return.\<close>

fun forEach :: "('a \<Rightarrow> 'w \<Rightarrow> 'w option) \<Rightarrow> 'a list \<Rightarrow> 'w \<Rightarrow> 'w option" where
  "forEach f [] w = Some w"
| "forEach f (x # xs) w = (case f x w of None \<Rightarrow> None | Some w' \<Rightarrow> forEach f xs w')"

text \<open>\<^verbatim>\<open>TimeLine.removeEntity(animationEntity)\<close>.\<close>

definition removeEntity :: "world \<Rightarrow> entity_ref \<Rightarrow> world option" where
  "removeEntity this ae =
     (let w1 = this\<lparr>ASYNC_COUNTER := ASYNC_COUNTER this + 1\<rparr>
      in do {
           w2 \<leftarrow> (if \<not> endRegistered (entities w1 ! ae) \<and> lastTargetForward w1 then
                   do {
                     (marker, w') \<leftarrow> createMarker w1 (currentTime w1);
                     Some (updEntity ae (\<lambda>e. e\<lparr>endRegistered := True\<rparr>)
                            (updMarker marker
                               (\<lambda>m. m\<lparr>endEntities := pushEntity ae (endEntities m)\<rparr>) w'))
                   }
                 else Some w1);
           Some (updEntity ae (\<lambda>e. e\<lparr>isRunning := False\<rparr>)
                   (w2\<lparr>rList := remove1 ae (rList w2)\<rparr>))
         })"

text \<open>\<^verbatim>\<open>TimelineEntity.checkDoneAndRelease(time, forward)\<close> of the entity \<open>ae\<close>.\<close>

definition checkDoneAndRelease :: "world \<Rightarrow> entity_ref \<Rightarrow> number \<Rightarrow> bool \<Rightarrow> world option" where
  "checkDoneAndRelease this ae time forward =
     (let w1 = (if time = doneTime (entities this ! ae)
                then updEntity ae (\<lambda>e. e\<lparr>isDone := True\<rparr>) this else this)
      in do {
           w2 \<leftarrow> (if isDone (entities w1 ! ae) \<and> parent (entities w1 ! ae) \<noteq> None then
                   (if forward \<and> time = endTime (entities w1 ! ae) then removeEntity w1 ae
                    else if \<not> forward \<and> time = startTime (entities w1 ! ae) then removeEntity w1 ae
                    else Some w1)
                 else Some w1);
           Some (if time = releaseTime (entities w2 ! ae) then
                   (let w3 = updEntity ae (\<lambda>e. e\<lparr>released := True\<rparr>) w2
                    in case releaseCb (entities w3 ! ae) of
                         None \<Rightarrow> w3
                       | Some cb \<Rightarrow>
                           updEntity ae (\<lambda>e. e\<lparr>releaseCb := None\<rparr>)
                             (w3\<lparr>effects := effects w3 @ [Resolved cb]\<rparr>))
                 else w2)
         })"

text \<open>
  \<^verbatim>\<open>Tween.setProgression(elapsed)\<close>: the value it computes and commits is outside the
  model; the call is recorded. (A tween in the store has a target and is valid.)
\<close>

definition setProgression :: "world \<Rightarrow> entity_ref \<Rightarrow> number \<Rightarrow> world" where
  "setProgression this ae elapsed = this\<lparr>effects := effects this @ [Applied ae elapsed]\<rparr>"

text \<open>
  \<open>displayFrame(time, targetTime, forward)\<close> of the entity \<open>ae\<close>: the one of
  \<^verbatim>\<open>TimelineEntity\<close> for a delay, the one of \<^verbatim>\<open>Tween\<close> for a tween.
\<close>

definition entity_displayFrame ::
  "world \<Rightarrow> entity_ref \<Rightarrow> number \<Rightarrow> number \<Rightarrow> bool \<Rightarrow> world option" where
  "entity_displayFrame this ae time targetTime forward =
     (let e = entities this ! ae
      in case kind e of
           DelayKind \<Rightarrow> checkDoneAndRelease this ae time forward
         | TweenKind target pn ty \<Rightarrow>
             if delayTime e \<le> time \<and> time \<le> endTime e then
               (let targetFrame = (time = targetTime);
                    w1 = (if targetFrame \<and> delayTime e \<le> time \<and> time \<le> doneTime e then
                            setProgression this ae (time - delayTime e)
                          else if \<not> targetFrame then
                            (if forward \<and> targetTime \<ge> doneTime e \<and> time = doneTime e then
                               setProgression this ae (time - delayTime e)
                             else if \<not> forward \<and> targetTime \<le> delayTime e \<and> time = delayTime e then
                               setProgression this ae 0
                             else this)
                          else this)
                in checkDoneAndRelease w1 ae time forward)
             else Some this)"

text \<open>\<^verbatim>\<open>TimeLine.addEntity(animationEntity)\<close>.\<close>

definition addEntity :: "world \<Rightarrow> entity_ref \<Rightarrow> world option" where
  "addEntity this ae =
     (let w1 = this\<lparr>ASYNC_COUNTER := ASYNC_COUNTER this + 1\<rparr>
      in do {
           w2 \<leftarrow> (if \<not> startRegistered (entities w1 ! ae) then
                   do {
                     (marker, w') \<leftarrow>
                        createMarker (updEntity ae (\<lambda>e. init e (currentTime w1)) w1) (currentTime w1);
                     Some (updEntity ae (\<lambda>e. e\<lparr>startRegistered := True\<rparr>)
                            (updMarker marker
                               (\<lambda>m. m\<lparr>startEntities := pushEntity ae (startEntities m)\<rparr>) w'))
                   }
                 else Some w1);
           let w3 = updEntity ae (\<lambda>e. e\<lparr>isRunning := True\<rparr>) (w2\<lparr>rList := rList w2 @ [ae]\<rparr>);
           entity_displayFrame w3 ae (currentTime w3) (lastTargetTime w3) (lastTargetForward w3)
         })"

text \<open>
  \<^verbatim>\<open>TimelineEntity.attach(parent)\<close>, as the revision of entities.ts has it that the
  timeline's \<open>createTweens\<close> call belongs to (the one with a tween for each property):
  \<^verbatim>\<open>parent.addEntity(this); this.parent = parent;\<close>. The entity has no parent yet while
  \<open>addEntity\<close> displays its first frame.
\<close>

definition attach :: "world \<Rightarrow> entity_ref \<Rightarrow> world option" where
  "attach this ae =
     (if parent (entities this ! ae) = None
      then do {
             w1 \<leftarrow> addEntity this ae;
             Some (updEntity ae (\<lambda>e. e\<lparr>parent := Some ParentTimeLine\<rparr>) w1)
           }
      else Some this)"

subsection \<open>Frames of the timeline\<close>

text \<open>
  The instruction function and what it leaves pending are code of the user. The model
  takes them as two functions of the state: \<open>tlFunction\<close> is the call
  \<open>this.tlFunction(this)\<close> up to its return, with whether it returned a thenable;
  \<open>microtasks\<close> is one turn of the microtask queue, which is what runs at an
  \<open>await Promise.resolve()\<close> (the continuations of the instruction function, and the
  callback that calls \<open>setTlFunctionComplete\<close> once a thenable result resolves).
\<close>

record UserCode =
  tlFunction :: "world \<Rightarrow> bool \<times> world"
  microtasks :: "world \<Rightarrow> world"

text \<open>\<^verbatim>\<open>TimeLine.checkState()\<close> (\<open>this.parent\<close> is undefined).\<close>

definition checkState :: "world \<Rightarrow> world" where
  "checkState this =
     (if tlReleased this \<and> tlDone this then this
      else if tlFunctionComplete this \<and> lastTargetForward this then
        (let allReleased = list_all (\<lambda>ae. released (entities this ! ae)) (rList this);
             count' = length (rList this);
             w1 = (if allReleased then
                     (let w = this\<lparr>tlReleased := True\<rparr>
                      in case tlReleaseCb w of
                           None \<Rightarrow> w
                         | Some cb \<Rightarrow> w\<lparr>effects := effects w @ [Resolved cb], tlReleaseCb := None\<rparr>)
                   else this)
         in if count' = 0 then
              (let w = w1\<lparr>tlDone := True\<rparr>
               in case tlDoneCb w of
                    None \<Rightarrow> w
                  | Some cb \<Rightarrow>
                      w\<lparr>effects := effects w @ [DoneCalled cb (lastTargetTime w)],
                        tlDoneCb := None\<rparr>)
            else w1)
      else this)"

definition setTlFunctionComplete :: "world \<Rightarrow> world" where
  "setTlFunctionComplete this =
     checkState (this\<lparr>tlFunctionComplete := True, ASYNC_COUNTER := ASYNC_COUNTER this + 1\<rparr>)"

text \<open>
  \<^verbatim>\<open>TimeLine.loadEntities(time, forward)\<close>. Both arrays are taken from the marker before
  the first loop; the second loop reads the length of its array when it starts, so it
  sees what the first loop pushed to that array.
\<close>

definition loadEntities :: "world \<Rightarrow> number \<Rightarrow> bool \<Rightarrow> world option" where
  "loadEntities this time forward =
     do {
       marker \<leftarrow> getMarker this time;
       (case marker of
          None \<Rightarrow> Some this
        | Some m \<Rightarrow>
            (let startAnimationEntities =
                   (if forward then startEntities (markerStore this ! m)
                    else endEntities (markerStore this ! m));
                 endDefined =
                   ((if forward then endEntities (markerStore this ! m)
                     else startEntities (markerStore this ! m)) \<noteq> None)
             in do {
                  w1 \<leftarrow> (case startAnimationEntities of
                          None \<Rightarrow> Some this
                        | Some l \<Rightarrow>
                            forEach (\<lambda>ae w. if \<not> isRunning (entities w ! ae)
                                            then addEntity w ae else Some w) (rev l) this);
                  (case (if endDefined then
                           (if forward then endEntities (markerStore w1 ! m)
                            else startEntities (markerStore w1 ! m))
                         else None) of
                     None \<Rightarrow> Some w1
                   | Some l \<Rightarrow>
                       forEach (\<lambda>ae w. if isRunning (entities w ! ae)
                                       then removeEntity w ae else Some w) (rev l) w1)
                }))
     }"

text \<open>\<^verbatim>\<open>TimeLine.displayFrame(time, targetTime, forward)\<close>.\<close>

definition tl_displayFrame ::
  "UserCode \<Rightarrow> world \<Rightarrow> number \<Rightarrow> number \<Rightarrow> bool \<Rightarrow> world option" where
  "tl_displayFrame user this time targetTime forward =
     (let w0 = this\<lparr>currentTime := time, lastTargetTime := targetTime,
                    lastTargetForward := forward\<rparr>
      in do {
           w1 \<leftarrow> (if \<not> tlFunctionCalled w0 then
                   (let r = tlFunction user (w0\<lparr>tlFunctionCalled := True\<rparr>)
                    in Some (if fst r then snd r else setTlFunctionComplete (snd r)))
                 else
                   do {
                     w' \<leftarrow> forEach (\<lambda>ae w. entity_displayFrame w ae time targetTime forward)
                            (rList w0) w0;
                     loadEntities w' time forward
                   });
           Some (checkState w1)
         })"

text \<open>\<^verbatim>\<open>TimeLine.getNextMarkerPosition(time, forward)\<close>: the scan of the running list,
  the walk along the markers, and the method.\<close>

definition MAX_TIME :: number where
  "MAX_TIME = 9007199254740991"

definition nextOfEntities ::
  "world \<Rightarrow> number \<Rightarrow> bool \<Rightarrow> number \<times> bool" where
  "nextOfEntities this time forward =
     fold (\<lambda>ae (n, found).
             let n2 = getNextMarkerPosition (entities this ! ae) time forward
             in if n2 > -1 then
                  (if forward then
                     (if time < n2 \<and> n2 < n then (n2, True) else (n, found))
                   else
                     (if time > n2 \<and> n2 > n then (n2, True) else (n, found)))
                else (n, found))
          (rList this) (if forward then MAX_TIME else -1, False)"

text \<open>The result of the walk: \<open>n\<close>, \<open>found\<close>, and the marker assigned to
  \<open>this.currentMarker\<close>, if one is.\<close>

partial_function (option) nextOfMarkers ::
  "marker_ref option \<Rightarrow> AnimMarker list \<Rightarrow> number \<Rightarrow> bool \<Rightarrow> number \<Rightarrow> bool
     \<Rightarrow> (number \<times> bool \<times> marker_ref option) option" where
  "nextOfMarkers cm ms time forward n found =
     (case cm of
        None \<Rightarrow> Some (n, found, None)
      | Some i \<Rightarrow>
          if forward then
            (if mtime (ms ! i) > time then
               (if found \<and> n = mtime (ms ! i) then Some (n, found, Some i)
                else if mtime (ms ! i) < n then
                  nextOfMarkers (mprev (ms ! i)) ms time forward (mtime (ms ! i)) True
                else Some (n, found, None))
             else nextOfMarkers (mnext (ms ! i)) ms time forward n found)
          else
            (if mtime (ms ! i) < time then
               (if found \<and> n = mtime (ms ! i) then Some (n, found, Some i)
                else if mtime (ms ! i) > n then
                  nextOfMarkers (mnext (ms ! i)) ms time forward (mtime (ms ! i)) True
                else Some (n, found, None))
             else nextOfMarkers (mprev (ms ! i)) ms time forward n found))"

declare nextOfMarkers.simps [code]

definition tl_getNextMarkerPosition ::
  "world \<Rightarrow> number \<Rightarrow> bool \<Rightarrow> (number \<times> world) option" where
  "tl_getNextMarkerPosition this time forward =
     (if \<bar>time - currentTime this\<bar> = FRAME_MS then Some (time, this)
      else
        (let r = nextOfEntities this time forward
         in do {
              (n, found, cur) \<leftarrow>
                 nextOfMarkers (currentMarker this) (markerStore this) time forward (fst r) (snd r);
              Some (if found then n else -1,
                    case cur of None \<Rightarrow> this | Some c \<Rightarrow> this\<lparr>currentMarker := Some c\<rparr>)
            }))"

subsection \<open>animate and delay\<close>

text \<open>
  \<^verbatim>\<open>TimeLine.select(selector)\<close> as \<open>animate\<close> calls it, with no scope of its own. An
  undefined selector and the empty string are falsy.
\<close>

definition select :: "'a TimeLine_scheme \<Rightarrow> Target option \<Rightarrow> element option" where
  "select this selector =
     (case selector of
        None \<Rightarrow> None
      | Some (SelectorString s) \<Rightarrow>
          if s = [] then None
          else (case selectorCtxt this of None \<Rightarrow> None | Some scope \<Rightarrow> scope s)
      | Some (SelectorElement e) \<Rightarrow> if hasStyle e then Some e else None
      | Some (TargetFn f) \<Rightarrow> None)"

text \<open>
  \<^verbatim>\<open>Tween.parsePropValue\<close>: its error code, \<open>0\<close> when the tween is valid. The name of
  a tween (\<open>"tween#" + ++AE_COUNT\<close>) is written without the count.
\<close>

definition parsePropValue :: "ResolvedTarget \<Rightarrow> PropertySpec \<Rightarrow> nat" where
  "parsePropValue target p =
     (if getAnimationType_rev2 target (ps_name p) = invalid then 100
      else if (case ps_value p of Array xs \<Rightarrow> length xs \<noteq> 2 | Scalar s \<Rightarrow> False) then 101
      else if interpolates p then 0 else 102)"

definition Tween_new ::
  "ResolvedTarget \<Rightarrow> string \<Rightarrow> number \<Rightarrow> number \<Rightarrow> number \<Rightarrow> Entity" where
  "Tween_new target propName' duration' delay' release' =
     \<lparr>name = ''tween#'', isRunning = False, startRegistered = False, endRegistered = False,
      released = False, isDone = False, parent = None, delay = delay', release = release',
      duration = duration', startTime = -1, delayTime = -1, releaseTime = -1,
      doneTime = -1, endTime = -1, releaseCb = None,
      kind = TweenKind target propName' (getAnimationType_rev2 target propName')\<rparr>"

text \<open>The class \<^verbatim>\<open>Delay\<close>: its constructor.\<close>

definition Delay_new :: "number \<Rightarrow> Entity" where
  "Delay_new duration' =
     \<lparr>name = ''delay'', isRunning = False, startRegistered = False, endRegistered = False,
      released = False, isDone = False, parent = None, delay = duration', release = 0,
      duration = 0, startTime = -1, delayTime = -1, releaseTime = -1,
      doneTime = -1, endTime = -1, releaseCb = None, kind = DelayKind\<rparr>"

text \<open>
  \<^verbatim>\<open>createTweens(target, params, settings, parent, duration, easing, elasticity, delay,
  release)\<close>: the \<open>reduce\<close> over the property keys, with the last valid tween so far.
  An invalid tween is reported on the console and dropped; a valid one is attached.
\<close>

fun createTweens ::
  "ResolvedTarget \<Rightarrow> PropertySpec list \<Rightarrow> number \<Rightarrow> number \<Rightarrow> number
     \<Rightarrow> entity_ref option \<Rightarrow> world \<Rightarrow> (entity_ref option \<times> world) option" where
  "createTweens target [] duration' delay' release' lastTween this = Some (lastTween, this)"
| "createTweens target (p # ps) duration' delay' release' lastTween this =
     (let w1 = this\<lparr>AE_COUNT := AE_COUNT this + 1\<rparr>
      in if parsePropValue target p \<noteq> 0 then
           createTweens target ps duration' delay' release' lastTween
             (w1\<lparr>console := console w1 @ [''[animate] invalid syntax'']\<rparr>)
         else
           (let tween = length (entities w1);
                w2 = w1\<lparr>entities := entities w1
                          @ [Tween_new target (ps_name p) duration' delay' release']\<rparr>
            in case attach w2 tween of
                 None \<Rightarrow> None
               | Some w3 \<Rightarrow> createTweens target ps duration' delay' release' (Some tween) w3))"

text \<open>How a target prints in the message of \<open>animate\<close>.\<close>

definition showTarget :: "Target option \<Rightarrow> string" where
  "showTarget t =
     (case t of
        None \<Rightarrow> ''undefined''
      | Some (SelectorString s) \<Rightarrow> s
      | Some (SelectorElement e) \<Rightarrow> ''[object HTMLElement]''
      | Some (TargetFn f) \<Rightarrow> ''function'')"

text \<open>
  \<^verbatim>\<open>TimeLine.animate(params)\<close>. The three timing values it passes on are
  \<open>animate_duration\<close>, \<open>animate_delay\<close> and \<open>animate_release\<close>. The result is the
  promise it returns, named by the callback that resolves it, or nothing. The timings
  of the entities are finite numbers: tweens whose timing is not one (a speed of zero)
  have no place in the store, and \<open>animate\<close> is \<open>None\<close> there, as it is when the call
  does not return.
\<close>

definition animate_speed :: "'a TimeLine_scheme \<Rightarrow> AnimateParams \<Rightarrow> number" where
  "animate_speed this params = parseValue (p_speed params) (s_speed (settings this))"

definition animate_duration :: "'a TimeLine_scheme \<Rightarrow> AnimateParams \<Rightarrow> number option" where
  "animate_duration this params =
     adjustDuration (parseValue (p_duration params) (s_duration (settings this)))
       (animate_speed this params)"

definition animate_delay :: "'a TimeLine_scheme \<Rightarrow> AnimateParams \<Rightarrow> number option" where
  "animate_delay this params =
     adjustDuration (parseValue (p_delay params) (s_delay (settings this)))
       (animate_speed this params)"

definition animate_release :: "'a TimeLine_scheme \<Rightarrow> AnimateParams \<Rightarrow> number option" where
  "animate_release this params =
     adjustDuration (parseValue (p_release params) (s_release (settings this)))
       (animate_speed this params)"

definition animate :: "world \<Rightarrow> AnimateParams \<Rightarrow> (callback option \<times> world) option" where
  "animate this params =
     (let target = (case p_target params of None \<Rightarrow> s_target (settings this) | Some t \<Rightarrow> Some t);
          finalTarget =
            (case target of
               Some (TargetFn f) \<Rightarrow> Some (TargetFunction f)
             | _ \<Rightarrow> map_option TargetElement (select this target))
      in case finalTarget of
           None \<Rightarrow>
             Some (None,
                   this\<lparr>console := console this
                          @ [''[anim] invalid target selector: '' @ showTarget target]\<rparr>)
         | Some ft \<Rightarrow>
             do {
               duration' \<leftarrow> animate_duration this params;
               delay' \<leftarrow> animate_delay this params;
               release' \<leftarrow> animate_release this params;
               (tween, w1) \<leftarrow>
                  createTweens ft (properties params) duration' delay' release' None this;
               Some (case tween of
                       None \<Rightarrow> (None, w1)
                     | Some tw \<Rightarrow>
                         (let p = promises w1; w2 = w1\<lparr>promises := p + 1\<rparr>
                          in (Some p,
                              if released (entities w2 ! tw)
                              then w2\<lparr>effects := effects w2 @ [Resolved p]\<rparr>
                              else updEntity tw (\<lambda>e. e\<lparr>releaseCb := Some p\<rparr>) w2)))
             })"

text \<open>\<^verbatim>\<open>TimeLine.delay(durationMs)\<close>, with the same convention for a duration that is
  not a finite number.\<close>

definition tl_delay :: "world \<Rightarrow> number \<Rightarrow> (callback option \<times> world) option" where
  "tl_delay this durationMs =
     do {
       duration' \<leftarrow> adjustDuration durationMs (s_speed (settings this));
       if duration' > 0 then
         (let d = length (entities this);
              w1 = this\<lparr>entities := entities this @ [Delay_new duration']\<rparr>
          in do {
               w2 \<leftarrow> attach w1 d;
               let p = promises w2;
               Some (Some p, updEntity d (\<lambda>e. e\<lparr>releaseCb := Some p\<rparr>) (w2\<lparr>promises := p + 1\<rparr>))
             })
       else Some (None, this)
     }"

subsection \<open>The asynchronous drain\<close>

text \<open>
  \<^verbatim>\<open>exhaustAsyncPipe()\<close>: the loop with its four variables; each pass awaits once, which
  is one turn of the microtask queue. The loop ends with the variables and the state.
\<close>

function exhaust_loop ::
  "(world \<Rightarrow> world) \<Rightarrow> int \<Rightarrow> int \<Rightarrow> nat \<Rightarrow> nat \<Rightarrow> world \<Rightarrow> int \<times> int \<times> nat \<times> nat \<times> world" where
  "exhaust_loop turn c1 c2 count' count2 w =
     (if c1 \<noteq> c2 \<and> count' < MAX_ASYNC then
        (let w1 = turn w;
             c1' = c2;
             c2' = ASYNC_COUNTER w1;
             count2' = (if c1' = c2' then count2 + 1 else 0);
             c1'' = (if count' = 0 \<or> count2' < 2 then -1 else c1');
             w2 = (if ASYNC_COUNTER w1 > 10000 then w1\<lparr>ASYNC_COUNTER := 1\<rparr> else w1)
         in exhaust_loop turn c1'' c2' (count' + 1) count2' w2)
      else (c1, c2, count', count2, w))"
  by pat_completeness auto
termination
  by (relation "measure (\<lambda>(turn, c1, c2, count', count2, w). MAX_ASYNC - count')") auto

text \<open>A call either returns or throws; the state is the one it leaves.\<close>

datatype 'a outcome = Returned 'a world | Thrown string world

definition exhaustAsyncPipe :: "UserCode \<Rightarrow> world \<Rightarrow> unit outcome" where
  "exhaustAsyncPipe user w =
     (case exhaust_loop (microtasks user) (-1) (ASYNC_COUNTER w) 0 0 w of
        (c1, c2, count', count2, w') \<Rightarrow>
          if count' = MAX_ASYNC then Thrown ''Max async loop reached'' w'
          else Returned () w')"

subsection \<open>Seeking\<close>

text \<open>
  One pass of the loop of \<^verbatim>\<open>TimeLine.move(timeTarget, manageAsyncPipe)\<close>, from the test
  of \<open>currentTime < 0\<close> to step 4: it ends the call (\<open>Stop\<close>: the early return, or an
  error thrown by the drain, which nothing catches) or goes on to the next pass.
\<close>

datatype step = Continue world | Stop "number outcome"

definition move_redisplay ::
  "UserCode \<Rightarrow> world \<Rightarrow> number \<Rightarrow> number \<Rightarrow> bool \<Rightarrow> unit outcome option" where
  "move_redisplay user this currentTime' timeTarget forward =
     (if forward \<noteq> lastTargetForward this then
        do {
          marker \<leftarrow> getMarker this currentTime';
          (case marker of
             None \<Rightarrow> Some (Returned () this)
           | Some m \<Rightarrow>
               do {
                 w1 \<leftarrow> tl_displayFrame user this currentTime' timeTarget forward;
                 Some (exhaustAsyncPipe user w1)
               })
        }
      else Some (Returned () this))"

definition move_display ::
  "UserCode \<Rightarrow> bool \<Rightarrow> world \<Rightarrow> number \<Rightarrow> number \<Rightarrow> bool \<Rightarrow> step option" where
  "move_display user manageAsyncPipe this nextTarget timeTarget forward =
     do {
       w1 \<leftarrow> tl_displayFrame user this nextTarget timeTarget forward;
       Some (if manageAsyncPipe then
               (case exhaustAsyncPipe user w1 of
                  Thrown msg w2 \<Rightarrow> Stop (Thrown msg w2)
                | Returned u w2 \<Rightarrow> Continue w2)
             else Continue w1)
     }"

definition move_pass ::
  "UserCode \<Rightarrow> bool \<Rightarrow> world \<Rightarrow> number \<Rightarrow> number \<Rightarrow> bool \<Rightarrow> step option" where
  "move_pass user manageAsyncPipe this currentTime' timeTarget forward =
     (if currentTime' < 0 then
        (let w1 = (if tlStartTime this < 0 then this\<lparr>tlStartTime := 0\<rparr> else this)
         in move_display user manageAsyncPipe w1 (tlStartTime w1) timeTarget forward)
      else
        do {
          r \<leftarrow> move_redisplay user this currentTime' timeTarget forward;
          (case r of
             Thrown msg w1 \<Rightarrow> Some (Stop (Thrown msg w1))
           | Returned u w1 \<Rightarrow>
               do {
                 (nextTarget, w2) \<leftarrow> tl_getNextMarkerPosition w1 currentTime' forward;
                 if nextTarget < 0 \<or> nextTarget = currentTime' then
                   Some (Stop (Returned currentTime'
                                 (w2\<lparr>moveTarget := currentTime', tlEndTime := currentTime'\<rparr>)))
                 else
                   move_display user manageAsyncPipe w2
                     (if forward then (if nextTarget > timeTarget then timeTarget else nextTarget)
                      else (if nextTarget < timeTarget then timeTarget else nextTarget))
                     timeTarget forward
               })
        })"

partial_function (option) move_loop ::
  "world \<Rightarrow> UserCode \<Rightarrow> bool \<Rightarrow> number \<Rightarrow> number \<Rightarrow> bool \<Rightarrow> number outcome option" where
  "move_loop this user manageAsyncPipe currentTime' timeTarget forward =
     (if currentTime' \<noteq> moveTarget this then
        (case move_pass user manageAsyncPipe this currentTime' timeTarget forward of
           None \<Rightarrow> None
         | Some (Stop r) \<Rightarrow> Some r
         | Some (Continue w) \<Rightarrow>
             move_loop w user manageAsyncPipe (currentTime w) timeTarget forward)
      else Some (Returned (currentTime this) this))"

declare move_loop.simps [code]

text \<open>\<^verbatim>\<open>TimeLine.move(timeTarget, manageAsyncPipe = true)\<close>.\<close>

definition move :: "UserCode \<Rightarrow> world \<Rightarrow> number \<Rightarrow> bool \<Rightarrow> number outcome option" where
  "move user this timeTarget manageAsyncPipe =
     (let w0 = this\<lparr>moveTarget := timeTarget\<rparr>;
          currentTime' = currentTime w0
      in if timeTarget = currentTime' then Some (Returned currentTime' w0)
         else move_loop w0 user manageAsyncPipe currentTime' timeTarget
                (timeTarget > currentTime'))"

text \<open>An \<open>animate\<close> call whose selector names no element.\<close>

definition unresolved_params :: AnimateParams where
  "unresolved_params =
     \<lparr>p_target = Some (SelectorString ''#missing''), p_easing = None, p_duration = None,
      p_delay = None, p_release = None, p_elasticity = None, p_speed = None,
      properties = [\<lparr>ps_name = ''left'', ps_value = Scalar ''16px'', interpolates = True\<rparr>]\<rparr>"

text \<open>
  The call \<open>animate\<close> of a function target with one property, a duration of 100 ms, a
  delay of 40 ms and the speed 2 on a new timeline: the timings are 48, 16 and 0, and
  they are those of the tween it adds.
\<close>

definition quantize_params :: AnimateParams where
  "quantize_params =
     \<lparr>p_target = Some (TargetFn 0), p_easing = None, p_duration = Some 100,
      p_delay = Some 40, p_release = None, p_elasticity = None, p_speed = Some 2,
      properties = [\<lparr>ps_name = ''x'', ps_value = Array [''0'', ''10''], interpolates = True\<rparr>]\<rparr>"


text \<open>
  Two users of the engine with an empty instruction function: the microtasks of \<open>quiet\<close>
  do nothing; every turn of the microtasks of \<open>busy\<close> makes one change that the engine
  counts.
\<close>

definition quiet :: UserCode where
  "quiet = \<lparr>tlFunction = (\<lambda>w. (False, w)), microtasks = (\<lambda>w. w)\<rparr>"

definition busy :: UserCode where
  "busy = \<lparr>tlFunction = (\<lambda>w. (False, w)),
            microtasks = (\<lambda>w. w\<lparr>ASYNC_COUNTER := ASYNC_COUNTER w + 1\<rparr>)\<rparr>"

text \<open>
  A user whose instruction function is asynchronous and reaches its instruction late:
  \<^verbatim>\<open>async a => { await 0; await 0; await 0; await 0; await 0; a.animate(...) }\<close>, the
  parameters of the call being \<open>quantize_params\<close>. The call \<open>tlFunction\<close> runs to the
  first \<^verbatim>\<open>await\<close> and returns a promise. \<open>pending\<close> counts what is left in the microtask
  queue: above 2, a continuation that ends at the next \<^verbatim>\<open>await\<close>; 2, the last
  continuation, which calls \<open>animate\<close> and returns; 1, the callback of the timeline on
  the promise, which calls \<open>setTlFunctionComplete\<close>; 0, nothing.
\<close>

definition late :: UserCode where
  "late =
     \<lparr>tlFunction = (\<lambda>w. (True, w\<lparr>pending := 6\<rparr>)),
      microtasks =
        (\<lambda>w. if pending w = 0 then w
             else if pending w = 1 then setTlFunctionComplete (w\<lparr>pending := 0\<rparr>)
             else if pending w = 2 then
               (case animate (w\<lparr>pending := 1\<rparr>) quantize_params of
                  None \<Rightarrow> w\<lparr>pending := 1\<rparr>
                | Some (p, w') \<Rightarrow> w')
             else w\<lparr>pending := pending w - 1\<rparr>)\<rparr>"

section \<open>Predicates of the proofs\<close>

text \<open>
  The fields of a timeline that only \<open>move\<close> and \<open>displayFrame\<close> write: no entity, no
  marker operation and no method of the animation interface assigns them.
\<close>

definition clock :: "world \<Rightarrow> number \<times> number \<times> bool \<times> number \<times> number" where
  "clock w = (currentTime w, lastTargetTime w, lastTargetForward w, moveTarget w, tlStartTime w)"

text \<open>
  A property \<open>E\<close> of entities that \<open>init\<close> at the time \<open>c\<close> keeps and that does not depend
  on the flags, the parent and the callback; a property \<open>M\<close> of markers that holds of a
  new marker at the time \<open>c\<close> and does not depend on the links and the entity lists.
  \<open>storeInv\<close>: \<open>E\<close> holds of the entities from the index \<open>n0\<close> on, \<open>M\<close> of all markers.
\<close>

definition entityInv :: "(Entity \<Rightarrow> bool) \<Rightarrow> number \<Rightarrow> bool" where
  "entityInv E c =
     (\<forall>e. E e \<longrightarrow>
        E (init e c)
        \<and> (\<forall>b. E (e\<lparr>isRunning := b\<rparr>) \<and> E (e\<lparr>startRegistered := b\<rparr>)
               \<and> E (e\<lparr>endRegistered := b\<rparr>) \<and> E (e\<lparr>isDone := b\<rparr>) \<and> E (e\<lparr>released := b\<rparr>))
        \<and> (\<forall>cb. E (e\<lparr>releaseCb := cb\<rparr>))
        \<and> (\<forall>p. E (e\<lparr>parent := p\<rparr>)))"

definition markerInv :: "(AnimMarker \<Rightarrow> bool) \<Rightarrow> number \<Rightarrow> bool" where
  "markerInv M c =
     ((\<forall>p n. M (newMarker c p n))
      \<and> (\<forall>m. M m \<longrightarrow>
            (\<forall>x. M (m\<lparr>mprev := x\<rparr>) \<and> M (m\<lparr>mnext := x\<rparr>))
            \<and> (\<forall>l. M (m\<lparr>startEntities := l\<rparr>) \<and> M (m\<lparr>endEntities := l\<rparr>))))"

definition storeInv :: "(Entity \<Rightarrow> bool) \<Rightarrow> (AnimMarker \<Rightarrow> bool) \<Rightarrow> nat \<Rightarrow> world \<Rightarrow> bool" where
  "storeInv E M n0 w = (list_all E (drop n0 (entities w)) \<and> list_all M (markerStore w))"

text \<open>
  The references to markers are indices of the marker store. \<open>linksOK\<close>: the current
  marker and the two links of every marker are markers of the store.
\<close>

definition inRange :: "nat \<Rightarrow> marker_ref option \<Rightarrow> bool" where
  "inRange n r = (case r of None \<Rightarrow> True | Some i \<Rightarrow> i < n)"

definition linksOK :: "world \<Rightarrow> bool" where
  "linksOK w =
     (inRange (length (markerStore w)) (currentMarker w)
      \<and> list_all (\<lambda>m. inRange (length (markerStore w)) (mprev m)
                       \<and> inRange (length (markerStore w)) (mnext m)) (markerStore w))"

text \<open>What an operation of the engine keeps: the clock, the store invariant, and the
  links.\<close>

definition keeps :: "(Entity \<Rightarrow> bool) \<Rightarrow> (AnimMarker \<Rightarrow> bool) \<Rightarrow> nat \<Rightarrow> world \<Rightarrow> world \<Rightarrow> bool" where
  "keeps E M n0 w w' =
     (clock w' = clock w \<and> (storeInv E M n0 w \<longrightarrow> storeInv E M n0 w')
      \<and> (linksOK w \<longrightarrow> linksOK w'))"




text \<open>
  The markers of a timeline that was only ever displayed at times from 0 on: none has a
  time strictly between -1 and 0, and the links are in the store.
\<close>

definition markersOK :: "world \<Rightarrow> bool" where
  "markersOK w =
     (list_all (\<lambda>m. mtime m \<le> -1 \<or> 0 \<le> mtime m) (markerStore w) \<and> linksOK w)"

text \<open>
  \<open>steady w w'\<close>: the step from \<open>w\<close> to \<open>w'\<close> leaves the clock as it is and, when the
  current time is not negative, keeps the markers well formed. The code of the user is
  \<open>userOK\<close> when each of its steps is steady: it uses the timeline through \<open>animate\<close>,
  \<open>delay\<close> and the like, and does not assign the fields of the clock.
\<close>

definition steady :: "world \<Rightarrow> world \<Rightarrow> bool" where
  "steady w w' =
     (clock w' = clock w \<and> (0 \<le> currentTime w \<and> markersOK w \<longrightarrow> markersOK w'))"

definition userOK :: "UserCode \<Rightarrow> bool" where
  "userOK user = (\<forall>s. steady s (snd (tlFunction user s)) \<and> steady s (microtasks user s))"




text \<open>
  The drain, turn by turn. \<open>drain_state turn w i\<close> is the state after \<open>i\<close> passes of the
  loop of \<^verbatim>\<open>exhaustAsyncPipe\<close> started in \<open>w\<close>; \<open>reading turn w i\<close> is the value of
  \<^verbatim>\<open>ASYNC_COUNTER\<close> that the pass \<open>i\<close> reads into \<^verbatim>\<open>c2\<close> (the reading 0 is the one
  before the loop); \<open>stableRun turn w i\<close> is the number of readings in a row, up to the
  reading \<open>i\<close>, that are equal to the reading before them.
\<close>

primrec drain_state :: "(world \<Rightarrow> world) \<Rightarrow> world \<Rightarrow> nat \<Rightarrow> world" where
  "drain_state turn w 0 = w"
| "drain_state turn w (Suc i) =
     (let w1 = turn (drain_state turn w i)
      in if ASYNC_COUNTER w1 > 10000 then w1\<lparr>ASYNC_COUNTER := 1\<rparr> else w1)"

definition reading :: "(world \<Rightarrow> world) \<Rightarrow> world \<Rightarrow> nat \<Rightarrow> int" where
  "reading turn w i =
     (case i of 0 \<Rightarrow> ASYNC_COUNTER w
      | Suc j \<Rightarrow> ASYNC_COUNTER (turn (drain_state turn w j)))"

primrec stableRun :: "(world \<Rightarrow> world) \<Rightarrow> world \<Rightarrow> nat \<Rightarrow> nat" where
  "stableRun turn w 0 = 0"
| "stableRun turn w (Suc i) =
     (if reading turn w (Suc i) = reading turn w i then stableRun turn w i + 1 else 0)"

text \<open>
  \<open>passes user m t forward s s'\<close>: the loop of \<open>move\<close> towards \<open>t\<close>, in the state \<open>s\<close> at the
  head of a pass, is in the state \<open>s'\<close> at the head of a later pass (or of the same one).
\<close>

inductive passes :: "UserCode \<Rightarrow> bool \<Rightarrow> number \<Rightarrow> bool \<Rightarrow> world \<Rightarrow> world \<Rightarrow> bool"
  for user :: UserCode and m :: bool and t :: number and forward :: bool where
  passes_refl: "passes user m t forward s s"
| passes_step:
    "passes user m t forward s s1 \<Longrightarrow> currentTime s1 \<noteq> moveTarget s1 \<Longrightarrow>
     move_pass user m s1 (currentTime s1) t forward = Some (Continue s2) \<Longrightarrow>
     passes user m t forward s s2"

section \<open>Theorems\<close>

subsection \<open>What init and doneCb leave in the fields\<close>

lemma init_duration: "duration (init this st) = duration this"
  by (simp add: init_def Let_def)

lemma init_startTime: "startTime (init this st) = st"
  by (simp add: init_def Let_def)

lemma init_delay: "delay (init this st) = (if delay this < 0 then 0 else delay this)"
  by (simp add: init_def Let_def)

lemma init_delayTime:
  "delayTime (init this st) = st + (if delay this < 0 then 0 else delay this)"
  by (simp add: init_def Let_def)

lemma init_doneTime:
  "0 \<le> duration this \<Longrightarrow>
   doneTime (init this st) = st + (if delay this < 0 then 0 else delay this) + duration this"
  by (simp add: init_def Let_def)

lemma init_more: "TimelineEntity.more (init this st) = TimelineEntity.more this"
  by (simp add: init_def Let_def)

lemma init_player_fields:
  fixes this :: "'a PlayerEntity_scheme"
  shows "speed (init this st) = speed this" and "backSpeed (init this st) = backSpeed this"
    and "alternate (init this st) = alternate this" and "times (init this st) = times this"
    and "d1 (init this st) = d1 this" and "d2 (init this st) = d2 this"
  by (simp_all add: init_def Let_def)

lemma doneCb_fields:
  "d1 (doneCb this tlDuration) = trunc (tlDuration / speed this)"
  "d2 (doneCb this tlDuration)
     = (if alternate this then trunc (tlDuration / backSpeed this) else 0)"
  "duration (doneCb this tlDuration)
     = (trunc (tlDuration / speed this)
        + (if alternate this then trunc (tlDuration / backSpeed this) else 0)) * times this"
  "speed (doneCb this tlDuration) = speed this"
  "backSpeed (doneCb this tlDuration) = backSpeed this"
  "delayTime (doneCb this tlDuration)
     = startTime this + (if delay this < 0 then 0 else delay this)"
  by (simp_all add: doneCb_def Let_def init_duration init_player_fields init_delayTime)

lemma doneCb_doneTime:
  "0 \<le> duration (doneCb this tlDuration) \<Longrightarrow>
   doneTime (doneCb this tlDuration)
     = delayTime (doneCb this tlDuration) + duration (doneCb this tlDuration)"
  by (simp add: doneCb_def Let_def init_duration init_doneTime init_delayTime)

lemma PlayerEntity_new_fields:
  "times (PlayerEntity_new dd dr (Some p)) = js_or (pp_times p) 1"
  "speed (PlayerEntity_new dd dr (Some p)) = js_or (pp_speed p) 1"
  "backSpeed (PlayerEntity_new dd dr (Some p)) = js_or (pp_backSpeed p) 1"
  "alternate (PlayerEntity_new dd dr (Some p))
     = (case pp_alternate p of None \<Rightarrow> False | Some b \<Rightarrow> b)"
  "delay (PlayerEntity_new dd dr (Some p)) = parseValue (pp_delay p) dd"
  "duration (PlayerEntity_new dd dr params) = -1"
  "speed (PlayerEntity_new dd dr None) = 1"
  "backSpeed (PlayerEntity_new dd dr None) = 1"
  "delay (PlayerEntity_new dd dr None) = 0"
  by (simp_all add: PlayerEntity_new_def Let_def split: option.split)

lemma js_or_nonzero: "d \<noteq> 0 \<Longrightarrow> js_or v d \<noteq> 0"
  by (simp add: js_or_def split: option.split)

subsection \<open>What the operations of the engine keep\<close>

lemma keeps_refl: "keeps E M n0 w w"
  by (simp add: keeps_def)

lemma keeps_trans: "keeps E M n0 w w1 \<Longrightarrow> keeps E M n0 w1 w2 \<Longrightarrow> keeps E M n0 w w2"
  by (simp add: keeps_def)

lemma list_all_drop_update:
  assumes "list_all P (drop n xs)" and "P (xs ! i) \<Longrightarrow> P y"
  shows "list_all P (drop n (xs[i := y]))"
proof -
  have "P (xs[i := y] ! (n + k))" if k: "k < length xs - n" for k
  proof (cases "i = n + k")
    case True
    with assms k show ?thesis by (simp add: list_all_length)
  next
    case False
    with assms(1) k show ?thesis by (simp add: list_all_length)
  qed
  then show ?thesis by (simp add: list_all_length)
qed

lemma list_all_drop_append:
  "list_all P (drop n xs) \<Longrightarrow> P y \<Longrightarrow> list_all P (drop n (xs @ [y]))"
  by (cases "n \<le> length xs") (auto simp add: list_all_iff)

lemma list_all_update:
  "list_all P xs \<Longrightarrow> (P (xs ! i) \<Longrightarrow> P y) \<Longrightarrow> list_all P (xs[i := y])"
  using list_all_drop_update [of P 0 xs i y] by simp

lemma keeps_updEntity:
  assumes "\<And>e. E e \<Longrightarrow> E (f e)"
  shows "keeps E M n0 w (updEntity ae f w)"
  using assms
  by (auto simp add: keeps_def clock_def storeInv_def linksOK_def updEntity_def
      intro: list_all_drop_update)

lemma keeps_updMarker:
  assumes "\<And>m. M m \<Longrightarrow> M (f m)" and "\<And>m. mprev (f m) = mprev m \<and> mnext (f m) = mnext m"
  shows "keeps E M n0 w (updMarker i f w)"
proof -
  have "clock (updMarker i f w) = clock w"
    by (simp add: clock_def updMarker_def)
  moreover have "storeInv E M n0 w \<longrightarrow> storeInv E M n0 (updMarker i f w)"
    using assms(1) by (auto simp add: storeInv_def updMarker_def intro: list_all_update)
  moreover have "linksOK w \<longrightarrow> linksOK (updMarker i f w)"
    using assms(2) by (auto simp add: linksOK_def updMarker_def intro: list_all_update)
  ultimately show ?thesis by (simp add: keeps_def)
qed

lemma createMarker_from_store:
  assumes "createMarker_from time cur w = Some r" and "markerInv M time"
  shows "clock (snd r) = clock w \<and> (storeInv E M n0 w \<longrightarrow> storeInv E M n0 (snd r))"
  using assms(2)
proof (induction time cur w r rule: createMarker_from.raw_induct)
  case (1 createMarker_from' time cur this r)
  have new: "M (newMarker time p n)" for p n
    using "1.prems" by (simp add: markerInv_def)
  have upd: "M m \<Longrightarrow> M (m\<lparr>mnext := x\<rparr>) \<and> M (m\<lparr>mprev := x\<rparr>)" for m x
    using "1.prems" by (simp add: markerInv_def)
  from "1.IH" "1.hyps" "1.prems" show ?case
    by (auto simp add: Let_def clock_def storeInv_def new upd
        intro!: list_all_update split: if_splits option.splits)
next
  show "createMarker_from time cur w = Some r" by (rule assms)
qed

lemma inRange_Suc: "inRange n r \<Longrightarrow> inRange (Suc n) r"
  by (simp add: inRange_def split: option.splits)

lemma linksOK_insert:
  assumes ok: "linksOK w" and cur: "cur < length (markerStore w)"
    and m: "m = mprev (markerStore w ! cur) \<or> m = mnext (markerStore w ! cur) \<or> m = Some cur"
    and m': "m' = mprev (markerStore w ! cur) \<or> m' = mnext (markerStore w ! cur) \<or> m' = Some cur"
    and f: "f = (\<lambda>x. x\<lparr>mnext := Some (length (markerStore w))\<rparr>)
            \<or> f = (\<lambda>x. x\<lparr>mprev := Some (length (markerStore w))\<rparr>)"
    and st: "markerStore w' = (markerStore w)[cur := f (markerStore w ! cur)] @ [newMarker time m m']"
    and cm: "currentMarker w' = Some (length (markerStore w))"
  shows "linksOK w'"
proof -
  let ?ms = "markerStore w" and ?n = "length (markerStore w)"
  let ?P = "\<lambda>k x. inRange k (mprev x) \<and> inRange k (mnext x)"
  from ok have all: "list_all (?P ?n) ?ms" by (simp add: linksOK_def)
  with cur have c: "?P ?n (?ms ! cur)" by (simp add: list_all_length)
  have r: "inRange ?n (Some cur)" using cur by (simp add: inRange_def)
  from c r m m' have mm: "inRange (Suc ?n) m \<and> inRange (Suc ?n) m'"
    by (auto intro: inRange_Suc)
  from all have all': "list_all (?P (Suc ?n)) ?ms"
    by (auto simp add: list_all_iff intro: inRange_Suc)
  from c f have "?P (Suc ?n) (f (?ms ! cur))"
    by (auto simp add: inRange_def split: option.splits)
  with all' have "list_all (?P (Suc ?n)) (?ms[cur := f (?ms ! cur)])"
    by (rule list_all_update)
  with mm show ?thesis
    by (simp add: linksOK_def st cm newMarker_def inRange_def)
qed

lemma createMarker_from_links:
  assumes "createMarker_from time cur w = Some r"
    and "linksOK w" and "cur < length (markerStore w)"
  shows "linksOK (snd r)"
  using assms(2,3)
proof (induction time cur w r rule: createMarker_from.raw_induct)
  case (1 createMarker_from' time cur this r)
  let ?ms = "markerStore this"
  let ?cm = "markerStore this ! cur"
  from "1.prems" have c: "inRange (length ?ms) (mprev ?cm) \<and> inRange (length ?ms) (mnext ?cm)"
    by (simp add: linksOK_def list_all_length)
  note ins = linksOK_insert [OF "1.prems"(1) "1.prems"(2)]
  show ?case
  proof (cases "mtime ?cm = time")
    case True
    with "1.hyps" have "r = (cur, this)" by (simp add: Let_def)
    with "1.prems" show ?thesis by simp
  next
    case ne: False
    show ?thesis
    proof (cases "time > mtime ?cm")
      case gt: True
      show ?thesis
      proof (cases "case mnext ?cm of None \<Rightarrow> False | Some nx \<Rightarrow> mtime (?ms ! nx) \<le> time")
        case True
        then obtain nx where nx: "mnext ?cm = Some nx" by (auto split: option.splits)
        with ne gt True "1.hyps" have rec: "createMarker_from' time nx this = Some r"
          by (simp add: Let_def)
        from c nx have "nx < length ?ms" by (simp add: inRange_def)
        from "1.IH" [OF rec "1.prems"(1) this] show ?thesis .
      next
        case False
        with ne gt "1.hyps"
        have st: "markerStore (snd r) = ?ms[cur := (\<lambda>x. x\<lparr>mnext := Some (length ?ms)\<rparr>) ?cm]
                                         @ [newMarker time (Some cur) (mnext ?cm)]"
          and cmk: "currentMarker (snd r) = Some (length ?ms)"
          by (auto simp add: Let_def)
        show ?thesis
          by (rule ins [where f = "\<lambda>x. x\<lparr>mnext := Some (length ?ms)\<rparr>" and m = "Some cur"
                and m' = "mnext ?cm" and time = time, OF _ _ _ st cmk]) auto
      qed
    next
      case lt: False
      show ?thesis
      proof (cases "case mprev ?cm of None \<Rightarrow> False | Some pv \<Rightarrow> mtime (?ms ! pv) \<ge> time")
        case True
        then obtain pv where pv: "mprev ?cm = Some pv" by (auto split: option.splits)
        with ne lt True "1.hyps" have rec: "createMarker_from' time pv this = Some r"
          by (simp add: Let_def)
        from c pv have "pv < length ?ms" by (simp add: inRange_def)
        from "1.IH" [OF rec "1.prems"(1) this] show ?thesis .
      next
        case False
        with ne lt "1.hyps"
        have st: "markerStore (snd r) = ?ms[cur := (\<lambda>x. x\<lparr>mprev := Some (length ?ms)\<rparr>) ?cm]
                                         @ [newMarker time (mprev ?cm) (Some cur)]"
          and cmk: "currentMarker (snd r) = Some (length ?ms)"
          by (auto simp add: Let_def)
        show ?thesis
          by (rule ins [where f = "\<lambda>x. x\<lparr>mprev := Some (length ?ms)\<rparr>" and m = "mprev ?cm"
                and m' = "Some cur" and time = time, OF _ _ _ st cmk]) auto
      qed
    qed
  qed
next
  show "createMarker_from time cur w = Some r" by (rule assms)
qed

lemma linksOK_append:
  assumes ok: "linksOK w"
    and st: "markerStore w' = markerStore w @ [newMarker time None None]"
    and cm: "currentMarker w' = Some (length (markerStore w))"
  shows "linksOK w'"
proof -
  let ?P = "\<lambda>k x. inRange k (mprev x) \<and> inRange k (mnext x)"
  from ok have "list_all (?P (length (markerStore w))) (markerStore w)"
    by (simp add: linksOK_def)
  then have "list_all (?P (Suc (length (markerStore w)))) (markerStore w)"
    by (auto simp add: list_all_iff intro: inRange_Suc)
  then show ?thesis
    by (simp add: linksOK_def st cm newMarker_def inRange_def)
qed

lemma createMarker_keeps:
  assumes "createMarker w time = Some r" and "markerInv M time"
  shows "keeps E M n0 w (snd r)"
proof (cases "firstMarker w = None")
  case True
  with assms(1) have r: "snd r = w\<lparr>markerStore := markerStore w @ [newMarker time None None],
                       firstMarker := Some (length (markerStore w)),
                       lastMarker := Some (length (markerStore w)),
                       currentMarker := Some (length (markerStore w))\<rparr>"
    by (auto simp add: createMarker_def Let_def)
  have "clock (snd r) = clock w"
    by (simp add: r clock_def)
  moreover have "storeInv E M n0 w \<longrightarrow> storeInv E M n0 (snd r)"
    using assms(2) by (simp add: r storeInv_def markerInv_def)
  moreover have "linksOK w \<longrightarrow> linksOK (snd r)"
    by (auto intro: linksOK_append simp add: r)
  ultimately show ?thesis by (simp add: keeps_def)
next
  case False
  with assms(1) obtain cur where cur: "currentMarker w = Some cur"
    and cm: "createMarker_from time cur w = Some r"
    by (auto simp add: createMarker_def split: option.splits)
  from cur have "linksOK w \<Longrightarrow> cur < length (markerStore w)"
    by (simp add: linksOK_def inRange_def)
  with createMarker_from_store [OF cm assms(2), of E n0] createMarker_from_links [OF cm]
  show ?thesis by (auto simp add: keeps_def)
qed

lemma keeps_same:
  "clock w' = clock w \<Longrightarrow> entities w' = entities w \<Longrightarrow> markerStore w' = markerStore w
     \<Longrightarrow> currentMarker w' = currentMarker w \<Longrightarrow> keeps E M n0 w w'"
  by (simp add: keeps_def storeInv_def linksOK_def)

lemma keeps_currentTime: "keeps E M n0 w w' \<Longrightarrow> currentTime w' = currentTime w"
  by (simp add: keeps_def clock_def)

lemma entityInvD:
  assumes "entityInv E c" and "E e"
  shows "E (init e c)" and "E (e\<lparr>isRunning := b\<rparr>)" and "E (e\<lparr>startRegistered := b\<rparr>)"
    and "E (e\<lparr>endRegistered := b\<rparr>)" and "E (e\<lparr>isDone := b\<rparr>)" and "E (e\<lparr>released := b\<rparr>)"
    and "E (e\<lparr>releaseCb := cb\<rparr>)" and "E (e\<lparr>parent := p\<rparr>)"
  using assms by (simp_all add: entityInv_def)

lemma markerInvD:
  assumes "markerInv M c" and "M m"
  shows "M (m\<lparr>startEntities := l\<rparr>)" and "M (m\<lparr>endEntities := l\<rparr>)"
  using assms by (simp_all add: markerInv_def)

lemma bind_SomeE:
  assumes "Option.bind f g = Some y"
  obtains x where "f = Some x" and "g x = Some y"
  using assms by (auto simp add: bind_eq_Some_conv)

lemma removeEntity_keeps:
  assumes r: "removeEntity w ae = Some w'"
    and E: "entityInv E (currentTime w)" and M: "markerInv M (currentTime w)"
  shows "keeps E M n0 w w'"
proof -
  let ?w1 = "w\<lparr>ASYNC_COUNTER := ASYNC_COUNTER w + 1\<rparr>"
  have k1: "keeps E M n0 w ?w1"
    by (rule keeps_same) (simp_all add: clock_def)
  from r obtain w2 where
    w2: "(if \<not> endRegistered (entities ?w1 ! ae) \<and> lastTargetForward ?w1 then
            do {
              (marker, w') \<leftarrow> createMarker ?w1 (currentTime ?w1);
              Some (updEntity ae (\<lambda>e. e\<lparr>endRegistered := True\<rparr>)
                     (updMarker marker
                        (\<lambda>m. m\<lparr>endEntities := pushEntity ae (endEntities m)\<rparr>) w'))
            }
          else Some ?w1) = Some w2"
    and w': "w' = updEntity ae (\<lambda>e. e\<lparr>isRunning := False\<rparr>) (w2\<lparr>rList := remove1 ae (rList w2)\<rparr>)"
    by (auto simp add: removeEntity_def Let_def bind_eq_Some_conv)
  have k2: "keeps E M n0 ?w1 w2"
  proof (cases "\<not> endRegistered (entities ?w1 ! ae) \<and> lastTargetForward ?w1")
    case True
    with w2 obtain marker wm where
      cm: "createMarker ?w1 (currentTime ?w1) = Some (marker, wm)"
      and e2: "w2 = updEntity ae (\<lambda>e. e\<lparr>endRegistered := True\<rparr>)
                     (updMarker marker
                        (\<lambda>m. m\<lparr>endEntities := pushEntity ae (endEntities m)\<rparr>) wm)"
      by (auto simp add: bind_eq_Some_conv)
    from createMarker_keeps [OF cm] M have a: "keeps E M n0 ?w1 wm" by simp
    have b: "keeps E M n0 wm (updMarker marker
               (\<lambda>m. m\<lparr>endEntities := pushEntity ae (endEntities m)\<rparr>) wm)"
      by (rule keeps_updMarker) (simp_all add: markerInvD [OF M])
    have c: "keeps E M n0 (updMarker marker
               (\<lambda>m. m\<lparr>endEntities := pushEntity ae (endEntities m)\<rparr>) wm) w2"
      unfolding e2 by (rule keeps_updEntity) (rule entityInvD [OF E])
    from a b c show ?thesis by (blast intro: keeps_trans)
  next
    case False
    with w2 show ?thesis by (auto simp add: keeps_refl split: if_splits)
  qed
  have k3: "keeps E M n0 w2 (w2\<lparr>rList := remove1 ae (rList w2)\<rparr>)"
    by (rule keeps_same) (simp_all add: clock_def)
  have k4: "keeps E M n0 (w2\<lparr>rList := remove1 ae (rList w2)\<rparr>) w'"
    unfolding w' by (rule keeps_updEntity) (rule entityInvD [OF E])
  from k1 k2 k3 k4 show ?thesis by (blast intro: keeps_trans)
qed

lemma checkDoneAndRelease_keeps:
  assumes r: "checkDoneAndRelease w ae time forward = Some w'"
    and E: "entityInv E (currentTime w)" and M: "markerInv M (currentTime w)"
  shows "keeps E M n0 w w'"
proof -
  let ?w1 = "if time = doneTime (entities w ! ae)
             then updEntity ae (\<lambda>e. e\<lparr>isDone := True\<rparr>) w else w"
  have k1: "keeps E M n0 w ?w1"
    by (auto intro: keeps_refl keeps_updEntity entityInvD [OF E])
  then have c1: "currentTime ?w1 = currentTime w" by (rule keeps_currentTime)
  from r obtain w2 where
    w2: "(if isDone (entities ?w1 ! ae) \<and> parent (entities ?w1 ! ae) \<noteq> None then
            (if forward \<and> time = endTime (entities ?w1 ! ae) then removeEntity ?w1 ae
             else if \<not> forward \<and> time = startTime (entities ?w1 ! ae) then removeEntity ?w1 ae
             else Some ?w1)
          else Some ?w1) = Some w2"
    and w': "w' = (if time = releaseTime (entities w2 ! ae) then
                     (let w3 = updEntity ae (\<lambda>e. e\<lparr>released := True\<rparr>) w2
                      in case releaseCb (entities w3 ! ae) of
                           None \<Rightarrow> w3
                         | Some cb \<Rightarrow>
                             updEntity ae (\<lambda>e. e\<lparr>releaseCb := None\<rparr>)
                               (w3\<lparr>effects := effects w3 @ [Resolved cb]\<rparr>))
                   else w2)"
    unfolding checkDoneAndRelease_def Let_def by (rule bind_SomeE) simp
  have gen: "w2 = x \<or> removeEntity x ae = Some w2"
    if "(if isDone (entities x ! ae) \<and> parent (entities x ! ae) \<noteq> None then
            (if forward \<and> time = endTime (entities x ! ae) then removeEntity x ae
             else if \<not> forward \<and> time = startTime (entities x ! ae) then removeEntity x ae
             else Some x)
          else Some x) = Some w2" for x
    using that by (auto split: if_splits)
  from gen [OF w2] have k2: "keeps E M n0 ?w1 w2"
  proof
    assume "w2 = ?w1"
    then show ?thesis by (simp only: keeps_refl)
  next
    assume "removeEntity ?w1 ae = Some w2"
    from removeEntity_keeps [OF this, of E M n0] E M c1 show ?thesis by simp
  qed
  let ?w3 = "updEntity ae (\<lambda>e. e\<lparr>released := True\<rparr>) w2"
  have k3: "keeps E M n0 w2 ?w3"
    by (rule keeps_updEntity) (rule entityInvD [OF E])
  have k4: "keeps E M n0 ?w3 (?w3\<lparr>effects := effects ?w3 @ [Resolved cb]\<rparr>)" for cb
    by (rule keeps_same) (simp_all add: clock_def)
  have k5: "keeps E M n0 (?w3\<lparr>effects := effects ?w3 @ [Resolved cb]\<rparr>)
              (updEntity ae (\<lambda>e. e\<lparr>releaseCb := None\<rparr>) (?w3\<lparr>effects := effects ?w3 @ [Resolved cb]\<rparr>))" for cb
    by (rule keeps_updEntity) (rule entityInvD [OF E])
  have k45: "keeps E M n0 w2 (updEntity ae (\<lambda>e. e\<lparr>releaseCb := None\<rparr>) (?w3\<lparr>effects := effects ?w3 @ [Resolved cb]\<rparr>))" for cb
    using k3 k4 [of cb] k5 [of cb] by (blast intro: keeps_trans)
  have k6: "keeps E M n0 w2 w'"
  proof (cases "time = releaseTime (entities w2 ! ae)")
    case True
    show ?thesis
    proof (cases "releaseCb (entities ?w3 ! ae)")
      case None
      with True w' k3 show ?thesis by (simp add: Let_def)
    next
      case (Some cb)
      with True w' k45 [of cb] show ?thesis by (simp add: Let_def)
    qed
  next
    case False
    with w' show ?thesis by (simp add: keeps_refl)
  qed
  from k1 k2 k6 show ?thesis by (blast intro: keeps_trans)
qed

lemma setProgression_keeps: "keeps E M n0 w (setProgression w ae x)"
  by (rule keeps_same) (simp_all add: clock_def setProgression_def)

lemma entity_displayFrame_keeps:
  assumes r: "entity_displayFrame w ae time targetTime forward = Some w'"
    and E: "entityInv E (currentTime w)" and M: "markerInv M (currentTime w)"
  shows "keeps E M n0 w w'"
proof -
  have cd: "keeps E M n0 w w'"
    if a: "checkDoneAndRelease w0 ae time forward = Some w'" and b: "keeps E M n0 w w0" for w0
  proof -
    from b have "currentTime w0 = currentTime w" by (rule keeps_currentTime)
    with checkDoneAndRelease_keeps [OF a, of E M n0] E M have "keeps E M n0 w0 w'" by simp
    with b show ?thesis by (rule keeps_trans)
  qed
  from r show ?thesis
    by (auto simp add: entity_displayFrame_def Let_def keeps_refl setProgression_keeps
        split: EntityKind.splits if_splits intro!: cd)
qed

lemma addEntity_keeps:
  assumes r: "addEntity w ae = Some w'"
    and E: "entityInv E (currentTime w)" and M: "markerInv M (currentTime w)"
  shows "keeps E M n0 w w'"
proof -
  let ?w1 = "w\<lparr>ASYNC_COUNTER := ASYNC_COUNTER w + 1\<rparr>"
  have k1: "keeps E M n0 w ?w1"
    by (rule keeps_same) (simp_all add: clock_def)
  from r obtain w2 where
    w2: "(if \<not> startRegistered (entities ?w1 ! ae) then
            do {
              (marker, w') \<leftarrow>
                 createMarker (updEntity ae (\<lambda>e. init e (currentTime ?w1)) ?w1) (currentTime ?w1);
              Some (updEntity ae (\<lambda>e. e\<lparr>startRegistered := True\<rparr>)
                     (updMarker marker
                        (\<lambda>m. m\<lparr>startEntities := pushEntity ae (startEntities m)\<rparr>) w'))
            }
          else Some ?w1) = Some w2"
    and df: "entity_displayFrame
               (updEntity ae (\<lambda>e. e\<lparr>isRunning := True\<rparr>) (w2\<lparr>rList := rList w2 @ [ae]\<rparr>)) ae
               (currentTime (updEntity ae (\<lambda>e. e\<lparr>isRunning := True\<rparr>) (w2\<lparr>rList := rList w2 @ [ae]\<rparr>)))
               (lastTargetTime (updEntity ae (\<lambda>e. e\<lparr>isRunning := True\<rparr>) (w2\<lparr>rList := rList w2 @ [ae]\<rparr>)))
               (lastTargetForward (updEntity ae (\<lambda>e. e\<lparr>isRunning := True\<rparr>) (w2\<lparr>rList := rList w2 @ [ae]\<rparr>)))
             = Some w'"
    by (auto simp add: addEntity_def Let_def bind_eq_Some_conv)
  have k2: "keeps E M n0 ?w1 w2"
  proof (cases "\<not> startRegistered (entities ?w1 ! ae)")
    case True
    let ?wi = "updEntity ae (\<lambda>e. init e (currentTime ?w1)) ?w1"
    from True w2 obtain marker wm where
      cm: "createMarker ?wi (currentTime ?w1) = Some (marker, wm)"
      and e2: "w2 = updEntity ae (\<lambda>e. e\<lparr>startRegistered := True\<rparr>)
                     (updMarker marker
                        (\<lambda>m. m\<lparr>startEntities := pushEntity ae (startEntities m)\<rparr>) wm)"
      by (auto simp add: bind_eq_Some_conv)
    have i: "keeps E M n0 ?w1 ?wi"
      by (rule keeps_updEntity) (use entityInvD(1) [OF E] in simp)
    from createMarker_keeps [OF cm] M have a: "keeps E M n0 ?wi wm" by simp
    have b: "keeps E M n0 wm (updMarker marker
               (\<lambda>m. m\<lparr>startEntities := pushEntity ae (startEntities m)\<rparr>) wm)"
      by (rule keeps_updMarker) (simp_all add: markerInvD [OF M])
    have c: "keeps E M n0 (updMarker marker
               (\<lambda>m. m\<lparr>startEntities := pushEntity ae (startEntities m)\<rparr>) wm) w2"
      unfolding e2 by (rule keeps_updEntity) (rule entityInvD [OF E])
    from i a b c show ?thesis by (blast intro: keeps_trans)
  next
    case False
    with w2 show ?thesis by (auto simp add: keeps_refl split: if_splits)
  qed
  let ?w3 = "updEntity ae (\<lambda>e. e\<lparr>isRunning := True\<rparr>) (w2\<lparr>rList := rList w2 @ [ae]\<rparr>)"
  have k3: "keeps E M n0 w2 (w2\<lparr>rList := rList w2 @ [ae]\<rparr>)"
    by (rule keeps_same) (simp_all add: clock_def)
  have k4: "keeps E M n0 (w2\<lparr>rList := rList w2 @ [ae]\<rparr>) ?w3"
    by (rule keeps_updEntity) (rule entityInvD [OF E])
  from k1 k2 k3 k4 have k: "keeps E M n0 w ?w3" by (blast intro: keeps_trans)
  then have "currentTime ?w3 = currentTime w" by (rule keeps_currentTime)
  with entity_displayFrame_keeps [OF df, of E M n0] E M have "keeps E M n0 ?w3 w'" by simp
  with k show ?thesis by (blast intro: keeps_trans)
qed

lemma attach_keeps:
  assumes r: "attach w ae = Some w'"
    and E: "entityInv E (currentTime w)" and M: "markerInv M (currentTime w)"
  shows "keeps E M n0 w w'"
proof (cases "parent (entities w ! ae) = None")
  case True
  with r obtain w1 where a: "addEntity w ae = Some w1"
    and w': "w' = updEntity ae (\<lambda>e. e\<lparr>parent := Some ParentTimeLine\<rparr>) w1"
    by (auto simp add: attach_def bind_eq_Some_conv)
  from addEntity_keeps [OF a E M] have k: "keeps E M n0 w w1" .
  have "keeps E M n0 w1 w'"
    unfolding w' by (rule keeps_updEntity) (rule entityInvD [OF E])
  with k show ?thesis by (rule keeps_trans)
next
  case False
  with r show ?thesis by (simp add: attach_def keeps_refl)
qed

lemma createTweens_keeps:
  assumes "createTweens target ps d l r lastTween w = Some (res, w')"
    and "entityInv E (currentTime w)" and "markerInv M (currentTime w)"
    and "\<And>pn. E (Tween_new target pn d l r)"
  shows "keeps E M n0 w w'"
  using assms
proof (induction ps arbitrary: lastTween w)
  case Nil
  then show ?case by (simp add: keeps_refl)
next
  case (Cons p ps)
  let ?w1 = "w\<lparr>AE_COUNT := AE_COUNT w + 1\<rparr>"
  have k1: "keeps E M n0 w ?w1"
    by (rule keeps_same) (simp_all add: clock_def)
  show ?case
  proof (cases "parsePropValue target p \<noteq> 0")
    case True
    let ?w2 = "?w1\<lparr>console := console ?w1 @ [''[animate] invalid syntax'']\<rparr>"
    have k2: "keeps E M n0 w ?w2"
      by (rule keeps_same) (simp_all add: clock_def)
    from True Cons.prems(1)
    have "createTweens target ps d l r lastTween ?w2 = Some (res, w')"
      by (simp add: Let_def)
    from Cons.IH [OF this] Cons.prems(2-4) have "keeps E M n0 ?w2 w'" by simp
    with k2 show ?thesis by (blast intro: keeps_trans)
  next
    case False
    let ?tw = "length (entities ?w1)"
    let ?w2 = "?w1\<lparr>entities := entities ?w1 @ [Tween_new target (ps_name p) d l r]\<rparr>"
    have k2: "keeps E M n0 ?w1 ?w2"
      using Cons.prems(4) [of "ps_name p"]
        list_all_drop_append [of E n0 "entities w" "Tween_new target (ps_name p) d l r"]
      by (simp add: keeps_def clock_def storeInv_def linksOK_def)
    from False Cons.prems(1) obtain w3 where
      at: "attach ?w2 ?tw = Some w3"
      and rest: "createTweens target ps d l r (Some ?tw) w3 = Some (res, w')"
      by (auto simp add: Let_def split: option.splits)
    from attach_keeps [OF at, of E M n0] Cons.prems(2,3)
    have k3: "keeps E M n0 ?w2 w3" by simp
    from k1 k2 k3 have k: "keeps E M n0 w w3" by (blast intro: keeps_trans)
    then have "currentTime w3 = currentTime w" by (rule keeps_currentTime)
    with Cons.IH [OF rest] Cons.prems(2-4) have "keeps E M n0 w3 w'" by simp
    with k show ?thesis by (blast intro: keeps_trans)
  qed
qed

lemma animate_keeps:
  assumes r: "animate w params = Some (res, w')"
    and E: "entityInv E (currentTime w)" and M: "markerInv M (currentTime w)"
    and T: "\<And>t pn d l r. animate_duration w params = Some d \<Longrightarrow> animate_delay w params = Some l
              \<Longrightarrow> animate_release w params = Some r \<Longrightarrow> E (Tween_new t pn d l r)"
  shows "keeps E M n0 w w'"
proof -
  have k1: "keeps E M n0 w w1"
    if "createTweens ft (properties params) d l r' None w = Some (tween, w1)"
      and "animate_duration w params = Some d" and "animate_delay w params = Some l"
      and "animate_release w params = Some r'" for ft d l r' tween w1
    using createTweens_keeps [OF that(1) E M, of n0] T [OF that(2-4)] by simp
  have ka: "keeps E M n0 w (w1\<lparr>promises := x, effects := y\<rparr>)"
    if "keeps E M n0 w w1" for w1 x y
    using that by (simp add: keeps_def clock_def storeInv_def linksOK_def)
  have kb: "keeps E M n0 w (updEntity tw (\<lambda>e. e\<lparr>releaseCb := cb\<rparr>) (w1\<lparr>promises := x\<rparr>))"
    if "keeps E M n0 w w1" for w1 x tw cb
  proof -
    from that have "keeps E M n0 w (w1\<lparr>promises := x\<rparr>)"
      by (simp add: keeps_def clock_def storeInv_def linksOK_def)
    moreover have "keeps E M n0 (w1\<lparr>promises := x\<rparr>)
                     (updEntity tw (\<lambda>e. e\<lparr>releaseCb := cb\<rparr>) (w1\<lparr>promises := x\<rparr>))"
      by (rule keeps_updEntity) (rule entityInvD [OF E])
    ultimately show ?thesis by (rule keeps_trans)
  qed
  have kc: "keeps E M n0 w (w\<lparr>console := x\<rparr>)" for x
    by (simp add: keeps_def clock_def storeInv_def linksOK_def)
  let ?target = "case p_target params of None \<Rightarrow> s_target (settings w) | Some t \<Rightarrow> Some t"
  let ?final = "case ?target of
                  Some (TargetFn f) \<Rightarrow> Some (TargetFunction f)
                | _ \<Rightarrow> map_option TargetElement (select w ?target)"
  show ?thesis
  proof (cases ?final)
    case None
    with r have "w' = w\<lparr>console := console w
                          @ [''[anim] invalid target selector: '' @ showTarget ?target]\<rparr>"
      by (simp add: animate_def Let_def)
    then show ?thesis by (simp only: kc)
  next
    case (Some ft)
    obtain d where d: "animate_duration w params = Some d"
      using r Some by (cases "animate_duration w params") (simp_all add: animate_def Let_def)
    obtain l where l: "animate_delay w params = Some l"
      using r Some d by (cases "animate_delay w params") (simp_all add: animate_def Let_def)
    obtain r' where r': "animate_release w params = Some r'"
      using r Some d l by (cases "animate_release w params") (simp_all add: animate_def Let_def)
    obtain tween w1 where ct: "createTweens ft (properties params) d l r' None w = Some (tween, w1)"
      using r Some d l r'
      by (cases "createTweens ft (properties params) d l r' None w")
        (auto simp add: animate_def Let_def)
    from k1 [OF ct d l r'] have k: "keeps E M n0 w w1" .
    show ?thesis
    proof (cases tween)
      case None
      with r Some d l r' ct have "w' = w1" by (simp add: animate_def Let_def)
      with k show ?thesis by simp
    next
      case tw: (Some tw)
      show ?thesis
      proof (cases "released (entities w1 ! tw)")
        case True
        with r Some d l r' ct tw
        have "w' = w1\<lparr>promises := promises w1 + 1, effects := effects w1 @ [Resolved (promises w1)]\<rparr>"
          by (simp add: animate_def Let_def)
        with ka [OF k] show ?thesis by simp
      next
        case False
        with r Some d l r' ct tw
        have "w' = updEntity tw (\<lambda>e. e\<lparr>releaseCb := Some (promises w1)\<rparr>)
                     (w1\<lparr>promises := promises w1 + 1\<rparr>)"
          by (auto simp add: animate_def Let_def updEntity_def)
        with kb [OF k] show ?thesis by simp
      qed
    qed
  qed
qed



subsection \<open>Steady steps\<close>

declare exhaust_loop.simps [simp del]

lemma steady_refl: "steady w w"
  by (simp add: steady_def)

lemma steady_trans: "steady w w1 \<Longrightarrow> steady w1 w2 \<Longrightarrow> steady w w2"
  by (auto simp add: steady_def clock_def)

lemma steady_same:
  "clock w' = clock w \<Longrightarrow> markerStore w' = markerStore w \<Longrightarrow> currentMarker w' = currentMarker w
     \<Longrightarrow> steady w w'"
  by (simp add: steady_def markersOK_def linksOK_def)

lemma markerInv_True: "markerInv (\<lambda>m. True) c"
  by (simp add: markerInv_def)

lemma entityInv_True: "entityInv (\<lambda>e. True) c"
  by (simp add: entityInv_def)

lemma markerInv_settled: "0 \<le> c \<Longrightarrow> markerInv (\<lambda>m. mtime m \<le> -1 \<or> 0 \<le> mtime m) c"
  by (simp add: markerInv_def newMarker_def)

lemma steadyI:
  assumes "\<And>M. markerInv M (currentTime w) \<Longrightarrow> keeps (\<lambda>e. True) M 0 w w'"
  shows "steady w w'"
proof -
  from assms [OF markerInv_True] have c: "clock w' = clock w" by (simp add: keeps_def)
  have "markersOK w'" if "0 \<le> currentTime w" and "markersOK w"
    using assms [OF markerInv_settled [OF that(1)]] that(2)
    by (simp add: keeps_def storeInv_def markersOK_def list_all_iff)
  with c show ?thesis by (simp add: steady_def)
qed





lemma checkState_steady: "steady w (checkState w)"
  by (rule steady_same)
    (simp_all add: checkState_def Let_def clock_def split: option.splits)

lemma setTlFunctionComplete_steady: "steady w (setTlFunctionComplete w)"
proof -
  let ?w1 = "w\<lparr>tlFunctionComplete := True, ASYNC_COUNTER := ASYNC_COUNTER w + 1\<rparr>"
  have "steady w ?w1" by (rule steady_same) (simp_all add: clock_def)
  moreover have "steady ?w1 (checkState ?w1)" by (rule checkState_steady)
  ultimately show ?thesis unfolding setTlFunctionComplete_def by (rule steady_trans)
qed





subsection \<open>The next marker position\<close>









subsection \<open>The passes of move\<close>













lemma userOK_late: "userOK late"
proof -
  have "steady s (snd (tlFunction late s))" for s
    by (simp add: late_def) (rule steady_same, simp_all add: clock_def)
  moreover have "steady s (microtasks late s)" for s
  proof -
    have p: "steady s (s\<lparr>pending := n\<rparr>)" for n
      by (rule steady_same) (simp_all add: clock_def)
    consider "pending s = 0" | "pending s = 1" | "pending s = 2" | "2 < pending s"
      by linarith
    then show ?thesis
    proof cases
      case 1
      then show ?thesis by (simp add: late_def steady_refl)
    next
      case 2
      have "steady (s\<lparr>pending := 0\<rparr>) (setTlFunctionComplete (s\<lparr>pending := 0\<rparr>))"
        by (rule setTlFunctionComplete_steady)
      with p [of 0] have "steady s (setTlFunctionComplete (s\<lparr>pending := 0\<rparr>))"
        by (rule steady_trans)
      with 2 show ?thesis by (simp add: late_def)
    next
      case 3
      show ?thesis
      proof (cases "animate (s\<lparr>pending := 1\<rparr>) quantize_params")
        case None
        with 3 p [of 1] show ?thesis by (simp add: late_def)
      next
        case (Some x)
        obtain q s' where x: "x = (q, s')" by (cases x)
        with Some have an: "animate (s\<lparr>pending := 1\<rparr>) quantize_params = Some (q, s')" by simp
        have "steady (s\<lparr>pending := 1\<rparr>) s'"
          by (rule steadyI) (rule animate_keeps [OF an entityInv_True], simp_all)
        with p [of 1] have "steady s s'" by (rule steady_trans)
        with 3 an show ?thesis by (simp add: late_def)
      qed
    next
      case 4
      with p [of "pending s - 1"] show ?thesis by (simp add: late_def)
    qed
  qed
  ultimately show ?thesis by (simp add: userOK_def)
qed

text \<open>
  C2. For an entity whose release callback is still set, and for one whose callback has
  been consumed, \<open>getNextMarkerPosition\<close> returns the first candidate strictly past
  \<open>time\<close> in the direction of travel, the candidates taken in the order
  delayTime, releaseTime, doneTime (forward, release \<le> 0),
  delayTime, doneTime, releaseTime (forward, release > 0),
  delayTime, doneTime (forward, callback consumed) and doneTime, delayTime (backward);
  it returns \<open>-1\<close> when no candidate lies past \<open>time\<close>.
\<close>

theorem getNextMarkerPosition_first_candidate:
  "getNextMarkerPosition this time forward
     = spec_first_past time forward (spec_candidates this forward)"
  by (simp add: getNextMarkerPosition_def spec_candidates_def)

text \<open>
  C3. When the wrapped timeline reports its duration \<open>tlDuration\<close>, the duration of a
  PlayerEntity becomes
  \<open>(trunc (tlDuration / speed) + (if alternate then trunc (tlDuration / backSpeed) else 0)) * times\<close>.
  For the player built with times 2, alternate, speed 1 and backSpeed 2 around a
  timeline of 32 ms: d1 = 32, d2 = 16, the cycle length is 48, the duration is 96, and
  \<open>displayFrame\<close> 40 ms after delayTime moves the wrapped timeline to \<open>(48 - 40) * 2 = 16\<close>.
\<close>

theorem doneCb_duration:
  assumes "speed this \<noteq> 0" and "backSpeed this \<noteq> 0"
  shows "duration (doneCb this tlDuration)
           = (trunc (tlDuration / speed this)
              + (if alternate this then trunc (tlDuration / backSpeed this) else 0)) * times this
       \<and> d1 (scenario_player st) = 32
       \<and> d2 (scenario_player st) = 16
       \<and> trunc (d1 (scenario_player st) + d2 (scenario_player st)) = 48
       \<and> duration (scenario_player st) = 96
       \<and> PlayerEntity_displayFrame (scenario_player st) (delayTime (scenario_player st) + 40)
            = Move ((48 - 40) * 2)"
proof -
  let ?p = "init (PlayerEntity_new 0 0 (Some scenario_params)) st"
  have p: "speed ?p = 1" "backSpeed ?p = 2" "alternate ?p" "times ?p = 2"
    "startTime ?p = st" "delay ?p = 0"
    by (simp_all add: init_player_fields init_startTime init_delay PlayerEntity_new_fields
        scenario_params_def js_or_def parseValue_def)
  have t: "trunc (32 / 1) = 32" "trunc (32 / 2) = 16" "trunc (32 + 16) = 48"
    by (simp_all add: trunc_def)
  have d: "d1 (scenario_player st) = 32" "d2 (scenario_player st) = 16"
    "duration (scenario_player st) = 96" "speed (scenario_player st) = 1"
    "backSpeed (scenario_player st) = 2" "delayTime (scenario_player st) = st"
    unfolding scenario_player_def using p t by (simp_all add: doneCb_fields)
  have dt: "doneTime (scenario_player st) = st + 96"
    using doneCb_doneTime [of ?p 32] d unfolding scenario_player_def by simp
  have rem: "js_rem 40 48 = Some 40"
    by (simp add: js_rem_def trunc_def)
  have frame: "PlayerEntity_displayFrame (scenario_player st) (delayTime (scenario_player st) + 40)
            = Move ((48 - 40) * 2)"
    using d dt t rem by (simp add: PlayerEntity_displayFrame_def Let_def)
  show ?thesis
    using d t frame by (simp add: doneCb_fields)
qed

theorem doneCb_duration_witness:
  "speed (init (PlayerEntity_new 0 0 (Some scenario_params)) 0) \<noteq> 0
   \<and> backSpeed (init (PlayerEntity_new 0 0 (Some scenario_params)) 0) \<noteq> 0
   \<and> duration (doneCb (init (PlayerEntity_new 0 0 (Some scenario_params)) 0) 32)
       = (32 + 16) * 2"
proof -
  let ?p = "init (PlayerEntity_new 0 0 (Some scenario_params)) 0"
  have p: "speed ?p = 1" "backSpeed ?p = 2" "alternate ?p" "times ?p = 2"
    by (simp_all add: init_player_fields PlayerEntity_new_fields scenario_params_def js_or_def)
  have n: "speed ?p \<noteq> 0" "backSpeed ?p \<noteq> 0"
    using p by simp_all
  have t: "trunc (32 / 1) = 32" "trunc (32 / 2) = 16"
    by (simp_all add: trunc_def)
  from doneCb_duration [OF n, of 32 0] p t n show ?thesis
    by simp
qed

text \<open>
  C4, as the code has it. A PlayerEntity constructed with times 0 is the PlayerEntity
  constructed with times 1, or with no times at all: the constructor replaces a falsy
  \<open>times\<close> by 1. Attached at \<open>st\<close>, once the wrapped timeline reports \<open>tlDuration\<close>
  its total duration is that of one cycle,
  \<open>trunc (tlDuration / speed) + (alternate ? trunc (tlDuration / backSpeed) : 0)\<close>; and
  until that report its duration is unknown (-1) and every \<open>displayFrame\<close> at or after
  its delayed start time moves the wrapped timeline, to
  \<open>(time - delayedStartTime) * speed\<close>: it contributes child frames.
\<close>

theorem PlayerEntity_times_zero:
  "PlayerEntity_new defaultDelay defaultRelease (Some (p\<lparr>pp_times := Some 0\<rparr>))
     = PlayerEntity_new defaultDelay defaultRelease (Some (p\<lparr>pp_times := Some 1\<rparr>))
   \<and> PlayerEntity_new defaultDelay defaultRelease (Some (p\<lparr>pp_times := Some 0\<rparr>))
     = PlayerEntity_new defaultDelay defaultRelease (Some (p\<lparr>pp_times := None\<rparr>))
   \<and> times (PlayerEntity_new defaultDelay defaultRelease (Some (p\<lparr>pp_times := Some 0\<rparr>))) = 1
   \<and> duration (doneCb (init (PlayerEntity_new defaultDelay defaultRelease
                                  (Some (p\<lparr>pp_times := Some 0\<rparr>))) st) tlDuration)
       = trunc (tlDuration / js_or (pp_speed p) 1)
         + (if (case pp_alternate p of None \<Rightarrow> False | Some b \<Rightarrow> b)
            then trunc (tlDuration / js_or (pp_backSpeed p) 1) else 0)
   \<and> duration (init (PlayerEntity_new defaultDelay defaultRelease
                          (Some (p\<lparr>pp_times := Some 0\<rparr>))) st) = -1
   \<and> (delayTime (init (PlayerEntity_new defaultDelay defaultRelease
                            (Some (p\<lparr>pp_times := Some 0\<rparr>))) st) \<le> time
        \<longrightarrow> PlayerEntity_displayFrame
              (init (PlayerEntity_new defaultDelay defaultRelease
                       (Some (p\<lparr>pp_times := Some 0\<rparr>))) st) time
            = Move ((time - delayTime (init (PlayerEntity_new defaultDelay defaultRelease
                                               (Some (p\<lparr>pp_times := Some 0\<rparr>))) st))
                    * js_or (pp_speed p) 1))"
proof -
  let ?n = "PlayerEntity_new defaultDelay defaultRelease (Some (p\<lparr>pp_times := Some 0\<rparr>))"
  let ?P = "init ?n st"
  have a: "?n = PlayerEntity_new defaultDelay defaultRelease (Some (p\<lparr>pp_times := Some 1\<rparr>))"
    by (simp add: PlayerEntity_new_def js_or_def)
  have b: "?n = PlayerEntity_new defaultDelay defaultRelease (Some (p\<lparr>pp_times := None\<rparr>))"
    by (simp add: PlayerEntity_new_def js_or_def)
  have c: "times ?n = 1"
    by (simp add: PlayerEntity_new_fields js_or_def)
  have f: "speed ?P = js_or (pp_speed p) 1" "backSpeed ?P = js_or (pp_backSpeed p) 1"
    "alternate ?P = (case pp_alternate p of None \<Rightarrow> False | Some b \<Rightarrow> b)" "times ?P = 1"
    by (simp_all add: init_player_fields PlayerEntity_new_fields js_or_def)
  have d: "duration (doneCb ?P tlDuration)
       = trunc (tlDuration / js_or (pp_speed p) 1)
         + (if (case pp_alternate p of None \<Rightarrow> False | Some b \<Rightarrow> b)
            then trunc (tlDuration / js_or (pp_backSpeed p) 1) else 0)"
    by (simp add: doneCb_fields f)
  have u: "duration ?P = -1"
    by (simp add: init_duration PlayerEntity_new_fields)
  have e: "delayTime ?P \<le> time
        \<longrightarrow> PlayerEntity_displayFrame ?P time
            = Move ((time - delayTime ?P) * js_or (pp_speed p) 1)"
    by (simp add: PlayerEntity_displayFrame_def u f)
  from a b c d u e show ?thesis by blast
qed

theorem PlayerEntity_times_zero_witness:
  "delayTime (init (PlayerEntity_new 0 0 (Some (times_only 0))) 0) \<le> 16
   \<and> duration (init (PlayerEntity_new 0 0 (Some (times_only 0))) 0) = -1
   \<and> PlayerEntity_displayFrame (init (PlayerEntity_new 0 0 (Some (times_only 0))) 0) 16 = Move 16
   \<and> duration (doneCb (init (PlayerEntity_new 0 0 (Some (times_only 0))) 0) 32) = 32
   \<and> duration (doneCb (init (PlayerEntity_new 0 0 (Some (times_only 0))) 0) 0) = 0"
proof -
  let ?p = "init (PlayerEntity_new 0 0 (Some (times_only 0))) 0"
  have t: "delayTime ?p = 0"
    by (simp add: init_delayTime PlayerEntity_new_fields times_only_def parseValue_def)
  have z: "(times_only 0)\<lparr>pp_times := Some 0\<rparr> = times_only 0"
    by (simp add: times_only_def)
  have tr: "trunc (32 / 1) = 32" "trunc (0 / 1) = 0"
    by (simp_all add: trunc_def)
  have sp: "js_or (pp_speed (times_only 0)) 1 = 1" "pp_alternate (times_only 0) = None"
    by (simp_all add: times_only_def js_or_def)
  note a = PlayerEntity_times_zero [of 0 0 "times_only 0" 0 32 16, unfolded z sp,
      THEN conjunct2, THEN conjunct2, THEN conjunct2]
  note b = PlayerEntity_times_zero [of 0 0 "times_only 0" 0 0 16, unfolded z sp,
      THEN conjunct2, THEN conjunct2, THEN conjunct2]
  from a have 1: "duration (doneCb ?p 32) = 32" using tr by simp
  from b have 2: "duration (doneCb ?p 0) = 0" using tr by simp
  from a have 3: "duration ?p = -1" by simp
  from a t have 4: "PlayerEntity_displayFrame ?p 16 = Move 16" by simp
  from t 1 2 3 4 show ?thesis by simp
qed

text \<open>
  C4, as the specification has it, fails: the player constructed with times 0 around a
  timeline that reports 32 ms has the duration 32, and before that report its
  \<open>displayFrame\<close> at 16 moves the wrapped timeline to 16.
\<close>

theorem PlayerEntity_times_zero_counterexample:
  "\<not> (duration (doneCb (init (PlayerEntity_new 0 0 (Some (times_only 0))) 0) 32) = 0
      \<and> PlayerEntity_displayFrame (init (PlayerEntity_new 0 0 (Some (times_only 0))) 0) 16
          = NoMove)"
proof -
  let ?p = "init (PlayerEntity_new 0 0 (Some (times_only 0))) 0"
  have "speed ?p = 1" "alternate ?p = False" "times ?p = 1"
    by (simp_all add: init_player_fields PlayerEntity_new_fields times_only_def js_or_def)
  moreover have "trunc (32 / 1) = 32"
    by (simp add: trunc_def)
  ultimately have "duration (doneCb ?p 32) = 32"
    by (simp add: doneCb_fields)
  then show ?thesis by simp
qed



subsection \<open>The loop of the drain\<close>

lemma drain_state_nonneg:
  assumes "\<forall>s. 0 \<le> ASYNC_COUNTER s \<longrightarrow> 0 \<le> ASYNC_COUNTER (turn s)" and "0 \<le> ASYNC_COUNTER w"
  shows "0 \<le> ASYNC_COUNTER (drain_state turn w i)"
  using assms by (induction i) (simp_all add: Let_def)

lemma reading_nonneg:
  assumes "\<forall>s. 0 \<le> ASYNC_COUNTER s \<longrightarrow> 0 \<le> ASYNC_COUNTER (turn s)" and "0 \<le> ASYNC_COUNTER w"
  shows "0 \<le> reading turn w i"
  using assms drain_state_nonneg [OF assms]
  by (cases i) (simp_all add: reading_def)

lemma stableRun_two:
  "2 \<le> stableRun turn w i
   \<longleftrightarrow> 2 \<le> i \<and> reading turn w i = reading turn w (i - 1)
            \<and> reading turn w (i - 1) = reading turn w (i - 2)"
proof (cases i)
  case 0
  then show ?thesis by simp
next
  case (Suc j)
  then show ?thesis by (cases j) auto
qed

lemma exhaust_loop_trace:
  assumes nn: "\<forall>s. 0 \<le> ASYNC_COUNTER s \<longrightarrow> 0 \<le> ASYNC_COUNTER (turn s)"
    and w0: "0 \<le> ASYNC_COUNTER w0"
  shows "s = drain_state turn w0 j \<Longrightarrow> c2 = reading turn w0 j \<Longrightarrow> k = stableRun turn w0 j
     \<Longrightarrow> c1 = (if k < 2 then -1 else reading turn w0 (j - 1))
     \<Longrightarrow> \<forall>i<j. stableRun turn w0 i < 2 \<Longrightarrow> j \<le> MAX_ASYNC
     \<Longrightarrow> exhaust_loop turn c1 c2 j k s = (a, b, n, k', w')
     \<Longrightarrow> n \<le> MAX_ASYNC \<and> w' = drain_state turn w0 n \<and> k' = stableRun turn w0 n
         \<and> b = reading turn w0 n
         \<and> (\<forall>i<n. stableRun turn w0 i < 2)
         \<and> (n < MAX_ASYNC \<longrightarrow> 2 \<le> stableRun turn w0 n \<and> a = b)"
  using nn w0
proof (induction turn c1 c2 j k s rule: exhaust_loop.induct)
  case (1 turn c1 c2 j k s)
  note nn = "1.prems"(8) and w0 = "1.prems"(9)
  have c2nn: "0 \<le> c2"
    unfolding "1.prems"(2) by (rule reading_nonneg [OF nn w0])
  show ?case
  proof (cases "c1 \<noteq> c2 \<and> j < MAX_ASYNC")
    case True
    let ?w1 = "turn s"
    let ?c2 = "ASYNC_COUNTER ?w1"
    let ?k = "if c2 = ?c2 then k + 1 else 0"
    let ?c1 = "if j = 0 \<or> ?k < 2 then -1 else c2"
    let ?w2 = "if ?c2 > 10000 then ?w1\<lparr>ASYNC_COUNTER := 1\<rparr> else ?w1"
    from "1.prems"(7) True
    have run: "exhaust_loop turn ?c1 ?c2 (j + 1) ?k ?w2 = (a, b, n, k', w')"
      by (subst (asm) exhaust_loop.simps) (simp add: Let_def)
    have k2: "k < 2"
    proof (rule ccontr)
      assume "\<not> k < 2"
      then have "2 \<le> stableRun turn w0 j" using "1.prems"(3) by simp
      then have "reading turn w0 j = reading turn w0 (j - 1)"
        by (simp add: stableRun_two)
      with \<open>\<not> k < 2\<close> "1.prems"(2,4) True show False by simp
    qed
    have s2: "?w2 = drain_state turn w0 (j + 1)"
      using "1.prems"(1) by (simp add: Let_def)
    have r2: "?c2 = reading turn w0 (j + 1)"
      using "1.prems"(1) by (simp add: reading_def)
    have st2: "?k = stableRun turn w0 (j + 1)"
      using "1.prems"(1,2,3) by (simp add: reading_def)
    have j0: "j = 0 \<Longrightarrow> ?k < 2"
      using "1.prems"(3) by simp
    have c12: "?c1 = (if ?k < 2 then -1 else reading turn w0 (j + 1 - 1))"
      using j0 "1.prems"(2) by auto
    have all: "\<forall>i<j + 1. stableRun turn w0 i < 2"
      using "1.prems"(5) k2 "1.prems"(3) by (auto simp add: less_Suc_eq)
    have le: "j + 1 \<le> MAX_ASYNC"
      using True by simp
    from "1.IH" [OF True refl refl refl refl refl refl s2 r2 st2 c12 all le run nn w0]
    show ?thesis .
  next
    case False
    from "1.prems"(7) False have eq: "(c1, c2, j, k, s) = (a, b, n, k', w')"
      by (subst (asm) exhaust_loop.simps) simp
    have "j < MAX_ASYNC \<Longrightarrow> 2 \<le> k \<and> c1 = c2"
    proof -
      assume "j < MAX_ASYNC"
      with False have e: "c1 = c2" by simp
      with c2nn "1.prems"(4) have "\<not> k < 2" by (auto split: if_splits)
      with e show ?thesis by simp
    qed
    with eq "1.prems"(1,2,3,5,6) show ?thesis by auto
  qed
qed

lemma move_loop_stops:
  "currentTime' \<noteq> moveTarget s
   \<Longrightarrow> move_pass user manageAsyncPipe s currentTime' timeTarget forward = Some (Stop r)
   \<Longrightarrow> move_loop s user manageAsyncPipe currentTime' timeTarget forward = Some r"
  by (subst move_loop.simps) simp

lemma passes_move_loop:
  "passes user m t forward s s1
   \<Longrightarrow> move_loop s user m (currentTime s) t forward
       = move_loop s1 user m (currentTime s1) t forward"
proof (induction rule: passes.induct)
  case (passes_refl s)
  show ?case by simp
next
  case (passes_step s s1 s2)
  have "move_loop s1 user m (currentTime s1) t forward
          = move_loop s2 user m (currentTime s2) t forward"
    using passes_step.hyps(2,3) by (subst move_loop.simps) simp
  with passes_step.IH show ?case by simp
qed

lemma move_uncaught:
  assumes "t \<noteq> currentTime this"
    and "passes user m t (t > currentTime this) (this\<lparr>moveTarget := t\<rparr>) s1"
    and "currentTime s1 \<noteq> moveTarget s1"
    and "move_pass user m s1 (currentTime s1) t (t > currentTime this) = Some (Stop r)"
  shows "move user this t m = Some r"
proof -
  have "move user this t m
          = move_loop (this\<lparr>moveTarget := t\<rparr>) user m (currentTime this) t (t > currentTime this)"
    using assms(1) by (simp add: move_def Let_def)
  also have "\<dots> = move_loop s1 user m (currentTime s1) t (t > currentTime this)"
    using passes_move_loop [OF assms(2)] by simp
  also have "\<dots> = Some r"
    by (rule move_loop_stops [OF assms(3,4)])
  finally show ?thesis .
qed

lemma move_pass_drain_throws:
  assumes "exhaustAsyncPipe user s1 = Thrown msg s2"
  shows "tl_displayFrame user s nextTarget t forward = Some s1
         \<Longrightarrow> move_display user True s nextTarget t forward = Some (Stop (Thrown msg s2))"
    and "\<not> c < 0 \<Longrightarrow> forward \<noteq> lastTargetForward s \<Longrightarrow> getMarker s c = Some (Some mk)
         \<Longrightarrow> tl_displayFrame user s c t forward = Some s1
         \<Longrightarrow> move_pass user m s c t forward = Some (Stop (Thrown msg s2))"
  using assms by (simp_all add: move_display_def move_pass_def move_redisplay_def)

lemma move_pass_display_stops:
  shows "c < 0
         \<Longrightarrow> move_display user m (if tlStartTime s < 0 then s\<lparr>tlStartTime := 0\<rparr> else s)
               (if tlStartTime s < 0 then 0 else tlStartTime s) t forward = Some (Stop r)
         \<Longrightarrow> move_pass user m s c t forward = Some (Stop r)"
    and "\<not> c < 0 \<Longrightarrow> move_redisplay user s c t forward = Some (Returned () s1)
         \<Longrightarrow> tl_getNextMarkerPosition s1 c forward = Some (nt, s2)
         \<Longrightarrow> \<not> (nt < 0 \<or> nt = c)
         \<Longrightarrow> move_display user m s2
               (if forward then (if nt > t then t else nt) else (if nt < t then t else nt))
               t forward = Some (Stop r)
         \<Longrightarrow> move_pass user m s c t forward = Some (Stop r)"
  by (auto simp add: move_pass_def Let_def)

text \<open>
  C6. \<open>exhaustAsyncPipe\<close> awaits at most \<open>MAX_ASYNC = 100\<close> times. With \<open>n\<close> the number
  of passes of its loop, the state it ends in is the one after \<open>n\<close> turns of the
  microtask queue, and \<open>n\<close> is the first pass whose reading of the counter is the
  second in a row to equal the reading before it (the readings \<open>n - 2\<close>, \<open>n - 1\<close> and
  \<open>n\<close> are equal, so \<open>n\<close> is at least 2), or 100 if there is none below 100. It throws
  "Max async loop reached" exactly when \<open>n\<close> is 100 and returns otherwise. Nothing in
  \<open>move\<close> catches the error: when the drain after a frame or after the frame displayed
  again on a change of direction throws, the pass ends with that error, and when a pass
  ends with an error, the first or a later one, \<open>move\<close> ends with it. (The counter is
  never negative: it starts at 0 and the engine only increments it or sets it to 1.)
\<close>

theorem exhaustAsyncPipe_bounded:
  assumes "0 \<le> ASYNC_COUNTER w"
    and "\<forall>s. 0 \<le> ASYNC_COUNTER s \<longrightarrow> 0 \<le> ASYNC_COUNTER (microtasks user s)"
    and "exhaust_loop (microtasks user) (-1) (ASYNC_COUNTER w) 0 0 w = (a, b, n, k, w')"
  shows "n \<le> MAX_ASYNC \<and> MAX_ASYNC = 100
    \<and> w' = drain_state (microtasks user) w n
    \<and> (\<forall>i<n. stableRun (microtasks user) w i < 2)
    \<and> (n < MAX_ASYNC \<longrightarrow> 2 \<le> stableRun (microtasks user) w n \<and> a = b)
    \<and> (\<forall>i. 2 \<le> stableRun (microtasks user) w i
             \<longleftrightarrow> 2 \<le> i
                  \<and> reading (microtasks user) w i = reading (microtasks user) w (i - 1)
                  \<and> reading (microtasks user) w (i - 1) = reading (microtasks user) w (i - 2))
    \<and> exhaustAsyncPipe user w
           = (if n = MAX_ASYNC then Thrown ''Max async loop reached'' w' else Returned () w')
    \<and> (\<forall>s nextTarget t forward s1 msg s2.
           tl_displayFrame user s nextTarget t forward = Some s1
           \<and> exhaustAsyncPipe user s1 = Thrown msg s2
           \<longrightarrow> move_display user True s nextTarget t forward = Some (Stop (Thrown msg s2)))
    \<and> (\<forall>s c t forward mk s1 msg s2 m.
           \<not> c < 0 \<and> forward \<noteq> lastTargetForward s \<and> getMarker s c = Some (Some mk)
           \<and> tl_displayFrame user s c t forward = Some s1
           \<and> exhaustAsyncPipe user s1 = Thrown msg s2
           \<longrightarrow> move_pass user m s c t forward = Some (Stop (Thrown msg s2)))
    \<and> (\<forall>s c t forward m r.
           c < 0
           \<and> move_display user m (if tlStartTime s < 0 then s\<lparr>tlStartTime := 0\<rparr> else s)
                (if tlStartTime s < 0 then 0 else tlStartTime s) t forward = Some (Stop r)
           \<longrightarrow> move_pass user m s c t forward = Some (Stop r))
    \<and> (\<forall>s c t forward m r s1 nt s2.
           \<not> c < 0 \<and> move_redisplay user s c t forward = Some (Returned () s1)
           \<and> tl_getNextMarkerPosition s1 c forward = Some (nt, s2)
           \<and> \<not> (nt < 0 \<or> nt = c)
           \<and> move_display user m s2
                (if forward then (if nt > t then t else nt) else (if nt < t then t else nt))
                t forward = Some (Stop r)
           \<longrightarrow> move_pass user m s c t forward = Some (Stop r))
    \<and> (\<forall>this t m s1 r.
           t \<noteq> currentTime this
           \<and> passes user m t (t > currentTime this) (this\<lparr>moveTarget := t\<rparr>) s1
           \<and> currentTime s1 \<noteq> moveTarget s1
           \<and> move_pass user m s1 (currentTime s1) t (t > currentTime this) = Some (Stop r)
           \<longrightarrow> move user this t m = Some r)"
proof -
  have tr: "n \<le> MAX_ASYNC \<and> w' = drain_state (microtasks user) w n
         \<and> k = stableRun (microtasks user) w n
         \<and> b = reading (microtasks user) w n
         \<and> (\<forall>i<n. stableRun (microtasks user) w i < 2)
         \<and> (n < MAX_ASYNC \<longrightarrow> 2 \<le> stableRun (microtasks user) w n \<and> a = b)"
    by (rule exhaust_loop_trace [OF assms(2) assms(1) _ _ _ _ _ _ assms(3)])
       (simp_all add: reading_def)
  from tr have p1: "n \<le> MAX_ASYNC" by simp
  have p2: "MAX_ASYNC = 100" by (simp add: MAX_ASYNC_def)
  from tr have p3: "w' = drain_state (microtasks user) w n" by simp
  from tr have p4: "\<forall>i<n. stableRun (microtasks user) w i < 2" by simp
  from tr have p5: "n < MAX_ASYNC \<longrightarrow> 2 \<le> stableRun (microtasks user) w n \<and> a = b" by simp
  have p6: "\<forall>i. 2 \<le> stableRun (microtasks user) w i
             \<longleftrightarrow> 2 \<le> i
                  \<and> reading (microtasks user) w i = reading (microtasks user) w (i - 1)
                  \<and> reading (microtasks user) w (i - 1) = reading (microtasks user) w (i - 2)"
    by (intro allI stableRun_two)
  have p7: "exhaustAsyncPipe user w
           = (if n = MAX_ASYNC then Thrown ''Max async loop reached'' w' else Returned () w')"
    using assms(3) by (simp add: exhaustAsyncPipe_def)
  have p8: "\<forall>s nextTarget t forward s1 msg s2.
           tl_displayFrame user s nextTarget t forward = Some s1
           \<and> exhaustAsyncPipe user s1 = Thrown msg s2
           \<longrightarrow> move_display user True s nextTarget t forward = Some (Stop (Thrown msg s2))"
    using move_pass_drain_throws(1) by blast
  have p9: "\<forall>s c t forward mk s1 msg s2 m.
           \<not> c < 0 \<and> forward \<noteq> lastTargetForward s \<and> getMarker s c = Some (Some mk)
           \<and> tl_displayFrame user s c t forward = Some s1
           \<and> exhaustAsyncPipe user s1 = Thrown msg s2
           \<longrightarrow> move_pass user m s c t forward = Some (Stop (Thrown msg s2))"
    using move_pass_drain_throws(2) by blast
  have p10: "\<forall>s c t forward m r.
           c < 0
           \<and> move_display user m (if tlStartTime s < 0 then s\<lparr>tlStartTime := 0\<rparr> else s)
                (if tlStartTime s < 0 then 0 else tlStartTime s) t forward = Some (Stop r)
           \<longrightarrow> move_pass user m s c t forward = Some (Stop r)"
    using move_pass_display_stops(1) by blast
  have p11: "\<forall>s c t forward m r s1 nt s2.
           \<not> c < 0 \<and> move_redisplay user s c t forward = Some (Returned () s1)
           \<and> tl_getNextMarkerPosition s1 c forward = Some (nt, s2)
           \<and> \<not> (nt < 0 \<or> nt = c)
           \<and> move_display user m s2
                (if forward then (if nt > t then t else nt) else (if nt < t then t else nt))
                t forward = Some (Stop r)
           \<longrightarrow> move_pass user m s c t forward = Some (Stop r)"
    using move_pass_display_stops(2) by blast
  have p12: "\<forall>this t m s1 r.
           t \<noteq> currentTime this
           \<and> passes user m t (t > currentTime this) (this\<lparr>moveTarget := t\<rparr>) s1
           \<and> currentTime s1 \<noteq> moveTarget s1
           \<and> move_pass user m s1 (currentTime s1) t (t > currentTime this) = Some (Stop r)
           \<longrightarrow> move user this t m = Some r"
    using move_uncaught by blast
  show ?thesis
    by (intro conjI) (rule p1 p2 p3 p4 p5 p6 p7 p8 p9 p10 p11 p12)+
qed

theorem exhaustAsyncPipe_bounded_witness:
  "0 \<le> ASYNC_COUNTER (world_new ''root'')
   \<and> fst (snd (snd (exhaust_loop (microtasks busy) (-1)
                      (ASYNC_COUNTER (world_new ''root'')) 0 0 (world_new ''root'')))) = 100
   \<and> exhaustAsyncPipe busy (world_new ''root'')
       = Thrown ''Max async loop reached'' (drain_state (microtasks busy) (world_new ''root'') 100)
   \<and> (case move busy (world_new ''root'') 100 True of
         Some (Thrown msg s) \<Rightarrow> msg = ''Max async loop reached'' \<and> ASYNC_COUNTER s = 101
       | _ \<Rightarrow> False)
   \<and> fst (snd (snd (exhaust_loop (\<lambda>s. s\<lparr>ASYNC_COUNTER := 1\<rparr>) (-1)
                      (ASYNC_COUNTER (world_new ''root'')) 0 0 (world_new ''root'')))) = 3
   \<and> exhaustAsyncPipe \<lparr>tlFunction = (\<lambda>s. (False, s)), microtasks = (\<lambda>s. s\<lparr>ASYNC_COUNTER := 1\<rparr>)\<rparr>
         (world_new ''root'')
       = Returned () ((world_new ''root'')\<lparr>ASYNC_COUNTER := 1\<rparr>)"
proof -
  let ?w = "world_new ''root''"
  let ?u = "\<lparr>tlFunction = (\<lambda>s. (False, s)), microtasks = (\<lambda>s. s\<lparr>ASYNC_COUNTER := 1\<rparr>)\<rparr>"
  have h1: "0 \<le> ASYNC_COUNTER ?w"
    by (simp add: world_new_def TimeLine.extend_def world.fields_def)
  have h2: "\<forall>s. 0 \<le> ASYNC_COUNTER s \<longrightarrow> 0 \<le> ASYNC_COUNTER (microtasks busy s)"
    by (simp add: busy_def)
  have h3: "\<forall>s. 0 \<le> ASYNC_COUNTER s \<longrightarrow> 0 \<le> ASYNC_COUNTER (microtasks ?u s)"
    by simp
  obtain a b n k w' where
    r: "exhaust_loop (microtasks busy) (-1) (ASYNC_COUNTER ?w) 0 0 ?w = (a, b, n, k, w')"
    by (metis prod_cases5)
  have c: "fst (snd (snd (exhaust_loop (microtasks busy) (-1) (ASYNC_COUNTER ?w) 0 0 ?w))) = 100"
    by code_simp
  with r have n: "n = 100" by simp
  note busy = exhaustAsyncPipe_bounded [OF h1 h2 r]
  from busy n have t1: "exhaustAsyncPipe busy ?w
       = Thrown ''Max async loop reached'' (drain_state (microtasks busy) ?w 100)"
    by simp
  have ct: "currentTime ?w = -1" "(100::number) \<noteq> -1"
    by (simp_all add: world_new_def TimeLine.extend_def TimeLine_new_def)
  have "(case move_pass busy True (?w\<lparr>moveTarget := 100\<rparr>) (-1) 100 True of
           Some (Stop (Thrown msg s)) \<Rightarrow> msg = ''Max async loop reached'' \<and> ASYNC_COUNTER s = 101
         | _ \<Rightarrow> False)"
    by code_simp
  then obtain s where
    pass: "move_pass busy True (?w\<lparr>moveTarget := 100\<rparr>) (-1) 100 True
             = Some (Stop (Thrown ''Max async loop reached'' s))"
    and s: "ASYNC_COUNTER s = 101"
    by (auto split: option.splits step.splits outcome.splits)
  have uncaught: "\<forall>this t m s1 r.
           t \<noteq> currentTime this
           \<and> passes busy m t (t > currentTime this) (this\<lparr>moveTarget := t\<rparr>) s1
           \<and> currentTime s1 \<noteq> moveTarget s1
           \<and> move_pass busy m s1 (currentTime s1) t (t > currentTime this) = Some (Stop r)
           \<longrightarrow> move busy this t m = Some r"
    using busy by (elim conjE)
  have "move busy ?w 100 True = Some (Thrown ''Max async loop reached'' s)"
    apply (rule uncaught [rule_format, of 100 ?w True "?w\<lparr>moveTarget := 100\<rparr>"])
    using ct pass by (simp add: passes_refl)
  with s have t2: "(case move busy ?w 100 True of
         Some (Thrown msg s) \<Rightarrow> msg = ''Max async loop reached'' \<and> ASYNC_COUNTER s = 101
       | _ \<Rightarrow> False)"
    by simp
  obtain a' b' n' k' w'' where
    r': "exhaust_loop (microtasks ?u) (-1) (ASYNC_COUNTER ?w) 0 0 ?w = (a', b', n', k', w'')"
    by (metis prod_cases5)
  have c': "fst (snd (snd (exhaust_loop (\<lambda>s. s\<lparr>ASYNC_COUNTER := 1\<rparr>) (-1)
                      (ASYNC_COUNTER ?w) 0 0 ?w))) = 3"
    by code_simp
  with r' have n': "n' = 3" by simp
  note once = exhaustAsyncPipe_bounded [OF h1 h3 r']
  from once n' have "exhaustAsyncPipe ?u ?w = Returned () (drain_state (microtasks ?u) ?w 3)"
    by (simp add: MAX_ASYNC_def)
  then have t3: "exhaustAsyncPipe ?u ?w = Returned () (?w\<lparr>ASYNC_COUNTER := 1\<rparr>)"
    by (simp add: numeral_3_eq_3 Let_def)
  from h1 c t1 t2 c' t3 show ?thesis
    by (intro conjI)
qed



text \<open>
  C8. The type of an animation is resolved when the tween is constructed: the
  constructor of \<open>Tween\<close> stores \<open>getAnimationType(target, propName)\<close>, the function of
  the utils.ts that the engine imports \<open>dom\<close> and \<open>parseValue\<close> from. It resolves the
  type in this order: a target function gives \<open>function\<close>; a DOM element gives
  \<open>attribute\<close> when the attribute is set or, on an SVG element, the property is truthy;
  else \<open>transform\<close> when the name is a key of \<^verbatim>\<open>TRANSFORMS\<close>; else \<open>css\<close>; every other
  target gives \<open>invalid\<close>.
\<close>

theorem getAnimationType_rev2_priority:
  "getAnimationType_rev2 (TargetFunction f) propName = function_type
   \<and> getAnimationType_rev2 (TargetElement e) propName
       = (if \<not> (nodeType e \<noteq> 0 \<or> ownerSVGElement e) then invalid
          else if hasAttribute e propName \<or> (ownerSVGElement e \<and> propTruthy e propName)
            then attribute
          else if propName \<in> set TRANSFORMS_rev2 then transform
          else css)
   \<and> kind (Tween_new target propName d l r)
       = TweenKind target propName (getAnimationType_rev2 target propName)"
  by (simp add: getAnimationType_rev2_def hasNodeType_def isSVG_def Tween_new_def)

theorem getAnimationType_rev2_priority_witness:
  "getAnimationType_rev2 (TargetFunction 0) ''width'' = function_type
   \<and> getAnimationType_rev2
         (TargetElement \<lparr>nodeType = 1, ownerSVGElement = False,
            attributes = [(''width'', ''10'')], truthyProps = [], hasStyle = True\<rparr>)
         ''width'' = attribute
   \<and> getAnimationType_rev2
         (TargetElement \<lparr>nodeType = 1, ownerSVGElement = True,
            attributes = [], truthyProps = [''rotate''], hasStyle = True\<rparr>)
         ''rotate'' = attribute
   \<and> getAnimationType_rev2
         (TargetElement \<lparr>nodeType = 1, ownerSVGElement = False,
            attributes = [(''width'', ''10'')], truthyProps = [''rotate''], hasStyle = True\<rparr>)
         ''rotate'' = transform
   \<and> getAnimationType_rev2
         (TargetElement \<lparr>nodeType = 1, ownerSVGElement = False,
            attributes = [(''width'', ''10'')], truthyProps = [], hasStyle = True\<rparr>)
         ''opacity'' = css
   \<and> getAnimationType_rev2
         (TargetElement \<lparr>nodeType = 0, ownerSVGElement = False,
            attributes = [(''width'', ''10'')], truthyProps = [], hasStyle = False\<rparr>)
         ''width'' = invalid"
  using
    getAnimationType_rev2_priority [where f = 0 and e = "\<lparr>nodeType = 1, ownerSVGElement = False,
            attributes = [(''width'', ''10'')], truthyProps = [], hasStyle = True\<rparr>"
            and propName = "''width''" and target = "TargetFunction 0" and d = 0 and l = 0 and r = 0]
    getAnimationType_rev2_priority [where f = 0 and e = "\<lparr>nodeType = 1, ownerSVGElement = True,
            attributes = [], truthyProps = [''rotate''], hasStyle = True\<rparr>"
            and propName = "''rotate''" and target = "TargetFunction 0" and d = 0 and l = 0 and r = 0]
    getAnimationType_rev2_priority [where f = 0 and e = "\<lparr>nodeType = 1, ownerSVGElement = False,
            attributes = [(''width'', ''10'')], truthyProps = [''rotate''], hasStyle = True\<rparr>"
            and propName = "''rotate''" and target = "TargetFunction 0" and d = 0 and l = 0 and r = 0]
    getAnimationType_rev2_priority [where f = 0 and e = "\<lparr>nodeType = 1, ownerSVGElement = False,
            attributes = [(''width'', ''10'')], truthyProps = [], hasStyle = True\<rparr>"
            and propName = "''opacity''" and target = "TargetFunction 0" and d = 0 and l = 0 and r = 0]
    getAnimationType_rev2_priority [where f = 0 and e = "\<lparr>nodeType = 0, ownerSVGElement = False,
            attributes = [(''width'', ''10'')], truthyProps = [], hasStyle = False\<rparr>"
            and propName = "''width''" and target = "TargetFunction 0" and d = 0 and l = 0 and r = 0]
  by (simp add: hasAttribute_def getAttribute_def propTruthy_def TRANSFORMS_rev2_def
      TRANSFORMS_def)

text \<open>
  The repository holds an earlier revision of utils.ts as well, which has no target
  functions: there \<open>getAnimationType\<close> takes a function for a target that is no DOM
  element and gives \<open>invalid\<close>. The constructor of \<open>Tween\<close> does not call it.
\<close>

lemma getAnimationType_function_target:
  "getAnimationType (TargetFunction f) propName = invalid"
  by (simp add: getAnimationType_def hasNodeType_def isSVG_def)

text \<open>
  C9. When the target of \<open>animate(params)\<close> is not a function and \<open>select\<close> finds no
  element for it, \<open>animate\<close> returns (nothing is thrown, and it returns no promise)
  with one more line on the console and nothing else changed: no entity is created or
  attached, the markers and the running list are as they were.
\<close>

theorem animate_unresolved_target:
  assumes "(case p_target params of None \<Rightarrow> s_target (settings this) | Some t \<Rightarrow> Some t) = target"
    and "\<forall>f. target \<noteq> Some (TargetFn f)"
    and "select this target = None"
  shows "animate this params
           = Some (None, this\<lparr>console := console this
                     @ [''[anim] invalid target selector: '' @ showTarget target]\<rparr>)
       \<and> (\<exists>w'. animate this params = Some (None, w')
             \<and> markerStore w' = markerStore this \<and> firstMarker w' = firstMarker this
             \<and> lastMarker w' = lastMarker this \<and> currentMarker w' = currentMarker this
             \<and> rList w' = rList this \<and> entities w' = entities this
             \<and> ASYNC_COUNTER w' = ASYNC_COUNTER this \<and> effects w' = effects this)"
proof -
  have "animate this params
           = Some (None, this\<lparr>console := console this
                     @ [''[anim] invalid target selector: '' @ showTarget target]\<rparr>)"
    using assms
    by (cases target) (auto simp add: animate_def Let_def split: Target.splits option.splits)
  then show ?thesis by simp
qed

theorem animate_unresolved_target_witness:
  "(case p_target (unresolved_params) of
      None \<Rightarrow> s_target (settings (world_new ''root'')) | Some t \<Rightarrow> Some t)
     = Some (SelectorString ''#missing'')
   \<and> select (world_new ''root'') (Some (SelectorString ''#missing'')) = None
   \<and> animate (world_new ''root'') unresolved_params
       = Some (None, (world_new ''root'')\<lparr>console :=
                  [''[anim] invalid target selector: #missing'']\<rparr>)"
proof -
  have t: "(case p_target (unresolved_params) of
      None \<Rightarrow> s_target (settings (world_new ''root'')) | Some t \<Rightarrow> Some t)
     = Some (SelectorString ''#missing'')"
    by (simp add: unresolved_params_def)
  have n: "\<forall>f. Some (SelectorString ''#missing'') \<noteq> Some (TargetFn f)"
    by simp
  have s: "select (world_new ''root'') (Some (SelectorString ''#missing'')) = None"
    by (simp add: select_def world_new_def TimeLine_new_def TimeLine.extend_def
        world.fields_def)
  have c: "console (world_new ''root'') = []"
    by (simp add: world_new_def TimeLine_new_def TimeLine.extend_def world.fields_def)
  from animate_unresolved_target [OF t n s] t s c show ?thesis
    by (simp add: showTarget_def)
qed

text \<open>
  C10. \<open>Player.position\<close> is never negative: it is \<open>0\<close> when the current time of the
  root timeline is negative (as it is, \<open>-1\<close>, for a new player), and the current time
  itself otherwise.
\<close>

theorem position_never_negative:
  "0 \<le> position this
   \<and> position this = (if currentTime (timeLine this) < 0 then 0 else currentTime (timeLine this))
   \<and> currentTime (timeLine (Player_new document)) = -1
   \<and> position (Player_new document) = 0"
  by (simp add: position_def Let_def Player_new_def TimeLine_new_def)

end
